theory Spec2Isabelle
  imports Main "HOL-Library.Word"
begin

section \<open>Function definition manager: reconciling edited definitions (wxgui/defmgr.cpp)\<close>

subsection \<open>Templates\<close>

text \<open>
  Modelled from the spec: the class \<open>fityk::Tplate\<close> is declared in \<open>fityk/tplate.h\<close>, which
  is missing here. The fields are those that \<open>defmgr.cpp\<close> uses, with the types of the
  specification's data model: \<open>defvals\<close> gives, per formal-argument position, an optional
  default expression; \<open>create\<close> is the pointer to a native implementation (here only whether
  it is set, which is what \<open>is_coded()\<close> tests); \<open>docs_fragment\<close> is the optional
  documentation anchor; a component is a coefficient expression with an optional reference
  (by name) to another template.
\<close>

record Tplate =
  name :: string
  fargs :: "string list"
  defvals :: "string option list"
  rhs :: string
  traits :: nat
  components :: "(string \<times> string option) list"
  docs_fragment :: "string option"
  create :: bool

text \<open>
  Modelled from the spec: \<open>Tplate::as_formula()\<close> is defined in \<open>fityk/tplate.cpp\<close>, which
  is missing here. The specification describes it as rendering the round-trippable textual
  definition \<open>name(args)=rhs\<close>, an argument with a default value being written
  \<open>arg=default\<close> as in the definitions the parser reads.
\<close>

fun formal_arg_texts :: "string list \<Rightarrow> string option list \<Rightarrow> string list" where
  "formal_arg_texts [] ds = []"
| "formal_arg_texts (a # as) [] = a # formal_arg_texts as []"
| "formal_arg_texts (a # as) (d # ds) =
     (case d of None \<Rightarrow> a | Some v \<Rightarrow> a @ ''='' @ v) # formal_arg_texts as ds"

fun join_with :: "string \<Rightarrow> string list \<Rightarrow> string" where
  "join_with sep [] = []"
| "join_with sep [x] = x"
| "join_with sep (x # y # ys) = x @ sep @ join_with sep (y # ys)"

definition as_formula :: "Tplate \<Rightarrow> string" where
  "as_formula tp =
     name tp @ ''('' @ join_with '', '' (formal_arg_texts (fargs tp) (defvals tp)) @ '')=''
       @ rhs tp"

subsection \<open>\<open>DefinitionMgrDlg::get_commands\<close>\<close>

text \<open>
  \<open>tpvec\<close> is the committed sequence \<open>ftk->get_tpm()->tpvec()\<close>, \<open>modified\<close> the dialog's
  working copy \<open>modified_\<close>; \<open>ss\<close> is the vector of commands built by \<open>push_back\<close>.

  First loop, inner part: is there a working-copy template with the given name?
\<close>

fun name_found :: "string \<Rightarrow> Tplate list \<Rightarrow> bool" where
  "name_found n [] = False"
| "name_found n (j # js) = (if n = name j then True else name_found n js)"

text \<open>First loop: an \<open>undefine\<close> for every committed name that the working copy lacks.\<close>

fun undefine_removed :: "Tplate list \<Rightarrow> Tplate list \<Rightarrow> string list \<Rightarrow> string list" where
  "undefine_removed [] modified ss = ss"
| "undefine_removed (i # is) modified ss =
     undefine_removed is modified
       (if \<not> name_found (name i) modified then ss @ [''undefine '' @ name i] else ss)"

text \<open>
  Second loop, inner part: the search for the first committed template named like \<open>i\<close>,
  stopping there (\<open>break\<close>). It returns \<open>need_define\<close> and the commands so far.
\<close>

fun match_committed :: "Tplate \<Rightarrow> Tplate list \<Rightarrow> string list \<Rightarrow> bool \<times> string list" where
  "match_committed i [] ss = (True, ss)"
| "match_committed i (j # js) ss =
     (if name i = name j then
        (if fargs i = fargs j \<and> defvals i = defvals j \<and> rhs i = rhs j
         then (False, ss)
         else (True, ss @ [''undefine '' @ name i]))
      else match_committed i js ss)"

text \<open>The body of the second loop for one working-copy template.\<close>

definition patch_template :: "Tplate list \<Rightarrow> Tplate \<Rightarrow> string list \<Rightarrow> string list" where
  "patch_template tpvec i ss =
     (case match_committed i tpvec ss of
        (need_define, ss1) \<Rightarrow>
          if need_define then ss1 @ [''define '' @ as_formula i] else ss1)"

fun define_changed :: "Tplate list \<Rightarrow> Tplate list \<Rightarrow> string list \<Rightarrow> string list" where
  "define_changed tpvec [] ss = ss"
| "define_changed tpvec (i # is) ss = define_changed tpvec is (patch_template tpvec i ss)"

definition get_commands :: "Tplate list \<Rightarrow> Tplate list \<Rightarrow> string list" where
  "get_commands tpvec modified =
     define_changed tpvec modified (undefine_removed tpvec modified [])"

subsection \<open>Reading the commands\<close>

text \<open>
  The commands are plain strings; what kind a command is shows in its first word. No string
  starts with both words.
\<close>

definition is_undefine :: "string \<Rightarrow> bool" where
  "is_undefine c = (take 9 c = ''undefine '')"

definition is_define :: "string \<Rightarrow> bool" where
  "is_define c = (take 7 c = ''define '')"

text \<open>No \<open>define\<close> stands before an \<open>undefine\<close>.\<close>

fun undefines_first :: "string list \<Rightarrow> bool" where
  "undefines_first [] = True"
| "undefines_first (c # cs) =
     ((is_define c \<longrightarrow> (\<forall>d \<in> set cs. \<not> is_undefine d)) \<and> undefines_first cs)"

text \<open>Every \<open>undefine\<close> is directly followed by a \<open>define\<close>.\<close>

fun undefine_then_define :: "string list \<Rightarrow> bool" where
  "undefine_then_define [] = True"
| "undefine_then_define [c] = (\<not> is_undefine c)"
| "undefine_then_define (c # d # cs) =
     ((is_undefine c \<longrightarrow> is_define d) \<and> undefine_then_define (d # cs))"

text \<open>The four fields that make up a definition.\<close>

definition same_definition :: "Tplate \<Rightarrow> Tplate \<Rightarrow> bool" where
  "same_definition a b =
     (name a = name b \<and> fargs a = fargs b \<and> defvals a = defvals b \<and> rhs a = rhs b)"

text \<open>
  A user-defined template as the dialog's Add button creates it (\<open>traits = 0\<close>,
  \<open>create = NULL\<close>, \<open>docs_fragment = NULL\<close>), with a definition filled in; the arguments
  have no default values.
\<close>

definition user_tplate :: "string \<Rightarrow> string list \<Rightarrow> string \<Rightarrow> Tplate" where
  "user_tplate n as r =
     \<lparr>name = n, fargs = as, defvals = map (\<lambda>a. None) as, rhs = r, traits = 0,
      components = [], docs_fragment = None, create = False\<rparr>"

section \<open>Lexical analyser (fityk/lexer.cpp)\<close>

subsection \<open>Tokens\<close>

text \<open>
  Modelled from the spec: \<open>TokenType\<close>, \<open>Token\<close> and the class \<open>Lexer\<close> are declared in
  \<open>fityk/lexer.h\<close>, which is missing here. The token kinds are those that \<open>tokentype2str\<close>
  enumerates; a token is a kind, a span (start, length) of the input and a numeric value;
  the lexer is the input, the cursor \<open>cur_\<close>, the flag \<open>peeked_\<close> and the token \<open>tok_\<close>
  that \<open>lexer.cpp\<close> uses.
\<close>

datatype TokenType =
    kTokenLname | kTokenCname | kTokenUletter | kTokenString | kTokenVarname
  | kTokenFuncname | kTokenNumber | kTokenDataset | kTokenWord | kTokenExpr | kTokenEVar
  | kTokenRest
  | kTokenLE | kTokenGE | kTokenNE | kTokenEQ | kTokenAppend | kTokenDots
  | kTokenPlusMinus | kTokenAddAssign | kTokenSubAssign
  | kTokenOpen | kTokenClose | kTokenLSquare | kTokenRSquare | kTokenLCurly | kTokenRCurly
  | kTokenPlus | kTokenMinus | kTokenMult | kTokenDiv | kTokenPower | kTokenLT | kTokenGT
  | kTokenAssign | kTokenComma | kTokenSemicolon | kTokenDot | kTokenColon | kTokenTilde
  | kTokenQMark | kTokenBang
  | kTokenNop

text \<open>
  The union \<open>value\<close> of a token holds an \<open>int\<close> (\<open>value.i\<close>) or a \<open>double\<close> (\<open>value.d\<close>).
  Floating-point conversion is outside this development: a \<open>double\<close> is represented by the
  text that \<open>strtod\<close> converted. \<open>Unset\<close> stands for a union that was never assigned.
\<close>

datatype TokenValue = Unset | ValueI int | ValueD string

text \<open>
  \<open>str\<close> points into the lexer's input; it is the offset from the start of the input.
\<close>

record Token =
  str :: nat
  type :: TokenType
  length_t :: nat
  value_t :: TokenValue

datatype exn = SyntaxError string

record Lexer =
  input :: string
  cur :: nat
  peeked :: bool
  tok :: Token

text \<open>
  Modelled from the spec: the constructor of \<open>Lexer\<close> (in \<open>lexer.h\<close>) starts with the cursor
  at the beginning of the input and an empty lookahead buffer.
\<close>

definition new_Lexer :: "string \<Rightarrow> Lexer" where
  "new_Lexer s =
     \<lparr>input = s, cur = 0, peeked = False,
      tok = \<lparr>str = 0, type = kTokenNop, length_t = 0, value_t = Unset\<rparr>\<rparr>"

subsection \<open>The C library on a C string\<close>

text \<open>
  The input is a NUL-terminated C string: reading at or past the end of the list gives the
  terminator.
\<close>

definition char_at :: "string \<Rightarrow> nat \<Rightarrow> char" where
  "char_at s i = (if i < length s then s ! i else CHR 0x00)"

text \<open>\<open>std::string(p, n)\<close> for a pointer \<open>p\<close> into the input.\<close>

definition substring :: "string \<Rightarrow> nat \<Rightarrow> nat \<Rightarrow> string" where
  "substring s i n = take n (drop i s)"

text \<open>The character classes of \<open>ctype.h\<close> in the C locale.\<close>

definition isspace :: "char \<Rightarrow> bool" where
  "isspace c = (c = CHR '' '' \<or> (9 \<le> (of_char c :: nat) \<and> (of_char c :: nat) \<le> 13))"

definition isdigit :: "char \<Rightarrow> bool" where
  "isdigit c = (48 \<le> (of_char c :: nat) \<and> (of_char c :: nat) \<le> 57)"

definition isupper :: "char \<Rightarrow> bool" where
  "isupper c = (65 \<le> (of_char c :: nat) \<and> (of_char c :: nat) \<le> 90)"

definition islower :: "char \<Rightarrow> bool" where
  "islower c = (97 \<le> (of_char c :: nat) \<and> (of_char c :: nat) \<le> 122)"

definition isalpha :: "char \<Rightarrow> bool" where
  "isalpha c = (isupper c \<or> islower c)"

definition isalnum :: "char \<Rightarrow> bool" where
  "isalnum c = (isalpha c \<or> isdigit c)"

text \<open>
  \<open>while (P(*ptr)) ++ptr;\<close> from position \<open>i\<close>: the position of the first character that
  fails \<open>P\<close>. The loops of the lexer all stop at the terminator: the character classes
  are false there, and the other loops test for it.
\<close>

definition scan_while :: "(char \<Rightarrow> bool) \<Rightarrow> string \<Rightarrow> nat \<Rightarrow> nat" where
  "scan_while P s i = i + length (takeWhile (\<lambda>c. c \<noteq> CHR 0x00 \<and> P c) (drop i s))"

text \<open>\<open>strchr(s + i, c)\<close>: the first \<open>c\<close> at or after \<open>i\<close> and before the terminator.\<close>

definition strchr :: "string \<Rightarrow> nat \<Rightarrow> char \<Rightarrow> nat option" where
  "strchr s i c =
     (let cs = takeWhile (\<lambda>x. x \<noteq> CHR 0x00) (drop i s) in
      if c = CHR 0x00 then Some (i + length cs)
      else if c \<in> set cs then Some (i + length (takeWhile (\<lambda>x. x \<noteq> c) cs))
      else None)"

text \<open>
  \<open>strtod(s + i, &endptr)\<close> of the C library (C99) in the C locale, called where a digit or
  a dot followed by a digit stands: the end of the longest floating-point literal. That is
  a decimal literal (digits, optional fraction, optional exponent \<open>e\<close> with at least one
  digit) or, behind \<open>0x\<close>, a hexadecimal one (hexadecimal digits with an optional fraction,
  at least one digit in all, optional binary exponent \<open>p\<close> with at least one decimal digit).
  Where \<open>0x\<close> is not followed by a hexadecimal digit, only the \<open>0\<close> is read.
\<close>

definition isxdigit :: "char \<Rightarrow> bool" where
  "isxdigit c =
     (isdigit c \<or> (65 \<le> (of_char c :: nat) \<and> (of_char c :: nat) \<le> 70) \<or>
      (97 \<le> (of_char c :: nat) \<and> (of_char c :: nat) \<le> 102))"

text \<open>
  The end of digits, optional fraction and optional exponent from \<open>i\<close>, for the given class
  of digits and the two spellings of the exponent letter.
\<close>

definition float_end :: "(char \<Rightarrow> bool) \<Rightarrow> char \<Rightarrow> char \<Rightarrow> string \<Rightarrow> nat \<Rightarrow> nat" where
  "float_end digit e1 e2 s i =
     (let a = scan_while digit s i;
          b = (if char_at s a = CHR ''.'' then scan_while digit s (a + 1) else a);
          c = (if char_at s (b + 1) = CHR ''+'' \<or> char_at s (b + 1) = CHR ''-''
               then b + 2 else b + 1);
          d = scan_while isdigit s c
      in if (char_at s b = e1 \<or> char_at s b = e2) \<and> c < d then d else b)"

definition strtod_end :: "string \<Rightarrow> nat \<Rightarrow> nat" where
  "strtod_end s i =
     (if char_at s i = CHR ''0'' \<and>
         (char_at s (i + 1) = CHR ''x'' \<or> char_at s (i + 1) = CHR ''X'') \<and>
         (isxdigit (char_at s (i + 2)) \<or>
          (char_at s (i + 2) = CHR ''.'' \<and> isxdigit (char_at s (i + 3))))
      then float_end isxdigit (CHR ''p'') (CHR ''P'') s (i + 2)
      else float_end isdigit (CHR ''e'') (CHR ''E'') s i)"

text \<open>
  \<open>strtol(s + i, &endptr, 10)\<close>, called where a digit stands: the end of the run of digits,
  and its value, which saturates at \<open>LONG_MAX\<close> (64 bits) and is then stored in an \<open>int\<close>
  (32 bits).
\<close>

definition digit_value :: "char \<Rightarrow> nat" where
  "digit_value c = of_char c - 48"

definition strtol_value :: "string \<Rightarrow> nat \<Rightarrow> int" where
  "strtol_value s i =
     (let ds = substring s i (scan_while isdigit s i - i);
          v = foldl (\<lambda>acc c. 10 * acc + digit_value c) 0 ds
      in sint (word_of_nat (min v (2 ^ 63 - 1)) :: 32 word))"

text \<open>
  Modelled from the spec: the sentinels \<open>Lexer::kAll\<close> and \<open>Lexer::kNew\<close> of \<open>lexer.h\<close>, for
  "all datasets" and "new dataset"; they differ from every dataset index.
\<close>

definition kAll :: int where "kAll = - 1"

definition kNew :: int where "kNew = - 2"

text \<open>
  Modelled from the spec: \<open>S(n)\<close> is defined in \<open>common.h\<close>, which is missing here; it
  renders the character offset, an \<open>int\<close>, as text: in decimal.
\<close>

fun decimal :: "nat \<Rightarrow> string" where
  "decimal n =
     (if n < 10 then [''0123456789'' ! n]
      else decimal (n div 10) @ [''0123456789'' ! (n mod 10)])"

declare decimal.simps [simp del]

definition S :: "int \<Rightarrow> string" where
  "S n = (if n < 0 then ''-'' @ decimal (nat (- n)) else decimal (nat n))"

subsection \<open>\<open>Lexer::get_string\<close> and \<open>tokentype2str\<close>\<close>

text \<open>
  Modelled from the spec: \<open>Token::as_string()\<close> is defined in \<open>lexer.h\<close>, which is missing
  here; it is the text of the token, the span (start, length) of the input.
\<close>

definition as_string :: "string \<Rightarrow> Token \<Rightarrow> string" where
  "as_string s t = substring s (str t) (length_t t)"



fun tokentype2str :: "TokenType \<Rightarrow> string" where
  "tokentype2str kTokenLname = ''lower_case_name''"
| "tokentype2str kTokenCname = ''CamelCaseName''"
| "tokentype2str kTokenUletter = ''Upper-case-letter''"
| "tokentype2str kTokenString = [CHR 0x27] @ ''quoted-string'' @ [CHR 0x27]"
| "tokentype2str kTokenVarname = ''$variable_name''"
| "tokentype2str kTokenFuncname = ''%func_name''"
| "tokentype2str kTokenNumber = ''number''"
| "tokentype2str kTokenDataset = ''@dataset''"
| "tokentype2str kTokenWord = ''word''"
| "tokentype2str kTokenExpr = ''expr''"
| "tokentype2str kTokenEVar = ''var-expr''"
| "tokentype2str kTokenRest = ''rest-of-line''"
| "tokentype2str kTokenLE = ''<=''"
| "tokentype2str kTokenGE = ''>=''"
| "tokentype2str kTokenNE = ''!=''"
| "tokentype2str kTokenEQ = ''==''"
| "tokentype2str kTokenAppend = ''>>''"
| "tokentype2str kTokenDots = ''..''"
| "tokentype2str kTokenPlusMinus = ''+-''"
| "tokentype2str kTokenAddAssign = ''+=''"
| "tokentype2str kTokenSubAssign = ''-=''"
| "tokentype2str kTokenOpen = ''(''"
| "tokentype2str kTokenClose = '')''"
| "tokentype2str kTokenLSquare = ''[''"
| "tokentype2str kTokenRSquare = '']''"
| "tokentype2str kTokenLCurly = ''{''"
| "tokentype2str kTokenRCurly = ''}''"
| "tokentype2str kTokenPlus = ''+''"
| "tokentype2str kTokenMinus = ''-''"
| "tokentype2str kTokenMult = ''*''"
| "tokentype2str kTokenDiv = ''/''"
| "tokentype2str kTokenPower = ''^''"
| "tokentype2str kTokenLT = ''<''"
| "tokentype2str kTokenGT = ''>''"
| "tokentype2str kTokenAssign = ''=''"
| "tokentype2str kTokenComma = '',''"
| "tokentype2str kTokenSemicolon = '';''"
| "tokentype2str kTokenDot = ''.''"
| "tokentype2str kTokenColon = '':''"
| "tokentype2str kTokenTilde = ''~''"
| "tokentype2str kTokenQMark = ''?''"
| "tokentype2str kTokenBang = ''!''"
| "tokentype2str kTokenNop = ''Nop''"

subsection \<open>\<open>Lexer::read_token\<close>\<close>

text \<open>The fixed single-character tokens, one line each in the \<open>switch\<close>.\<close>

definition single_char_token :: "char \<Rightarrow> TokenType option" where
  "single_char_token c =
     (if c = CHR ''('' then Some kTokenOpen
      else if c = CHR '')'' then Some kTokenClose
      else if c = CHR ''['' then Some kTokenLSquare
      else if c = CHR '']'' then Some kTokenRSquare
      else if c = CHR ''{'' then Some kTokenLCurly
      else if c = CHR ''}'' then Some kTokenRCurly
      else if c = CHR ''*'' then Some kTokenMult
      else if c = CHR ''/'' then Some kTokenDiv
      else if c = CHR ''^'' then Some kTokenPower
      else if c = CHR '','' then Some kTokenComma
      else if c = CHR '';'' then Some kTokenSemicolon
      else if c = CHR '':'' then Some kTokenColon
      else if c = CHR ''~'' then Some kTokenTilde
      else if c = CHR ''?'' then Some kTokenQMark
      else None)"

text \<open>The characters that continue a \<open>$name\<close> or a \<open>%name\<close>.\<close>

definition name_char :: "bool \<Rightarrow> char \<Rightarrow> bool" where
  "name_char allow_glob c = (isalnum c \<or> c = CHR ''_'' \<or> (allow_glob \<and> c = CHR ''*''))"

text \<open>
  The \<open>switch\<close> of \<open>read_token\<close>, with \<open>ptr\<close> past the white space. It returns either the
  exception thrown or the final \<open>ptr\<close>, together with what it has assigned to \<open>tok_.type\<close>
  and to \<open>tok_.value\<close> by then, if anything.
\<close>

definition scan_token ::
  "bool \<Rightarrow> string \<Rightarrow> nat \<Rightarrow> (exn + nat) \<times> TokenType option \<times> TokenValue option" where
  "scan_token allow_glob s ptr =
     (let c = char_at s ptr; c1 = char_at s (ptr + 1) in
      if c = CHR 0x00 \<or> c = CHR ''#'' then (Inr ptr, Some kTokenNop, None)
      else if c = CHR 0x27 then
        (case strchr s (ptr + 1) (CHR 0x27) of
           None \<Rightarrow> (Inl (SyntaxError ''unfinished string''), Some kTokenString, None)
         | Some e \<Rightarrow> (Inr (e + 1), Some kTokenString, None))
      else if c = CHR ''>'' then
        (if c1 = CHR ''='' then (Inr (ptr + 2), Some kTokenGE, None)
         else if c1 = CHR ''>'' then (Inr (ptr + 2), Some kTokenAppend, None)
         else (Inr (ptr + 1), Some kTokenGT, None))
      else if c = CHR ''<'' then
        (if c1 = CHR ''='' then (Inr (ptr + 2), Some kTokenLE, None)
         else if c1 = CHR ''>'' then (Inr (ptr + 2), Some kTokenNE, None)
         else (Inr (ptr + 1), Some kTokenLT, None))
      else if c = CHR ''='' then
        (if c1 = CHR ''='' then (Inr (ptr + 2), Some kTokenEQ, None)
         else (Inr (ptr + 1), Some kTokenAssign, None))
      else if c = CHR ''+'' then
        (if c1 = CHR ''-'' then (Inr (ptr + 2), Some kTokenPlusMinus, None)
         else if c1 = CHR ''='' then (Inr (ptr + 2), Some kTokenAddAssign, None)
         else (Inr (ptr + 1), Some kTokenPlus, None))
      else if c = CHR ''-'' then
        (if c1 = CHR ''='' then (Inr (ptr + 2), Some kTokenSubAssign, None)
         else (Inr (ptr + 1), Some kTokenMinus, None))
      else if c = CHR ''!'' then
        (if c1 = CHR ''='' then (Inr (ptr + 2), Some kTokenNE, None)
         else (Inr (ptr + 1), Some kTokenBang, None))
      else if c = CHR ''.'' then
        (if isdigit c1 then
           (Inr (strtod_end s ptr), Some kTokenNumber,
            Some (ValueD (substring s ptr (strtod_end s ptr - ptr))))
         else if c1 = CHR ''.'' then
           (Inr (if char_at s (ptr + 2) = CHR ''.'' then ptr + 3 else ptr + 2),
            Some kTokenDots, None)
         else (Inr (ptr + 1), Some kTokenDot, None))
      else if c = CHR ''@'' then
        (if c1 = CHR ''*'' then (Inr (ptr + 2), Some kTokenDataset, Some (ValueI kAll))
         else if c1 = CHR ''+'' then (Inr (ptr + 2), Some kTokenDataset, Some (ValueI kNew))
         else if isdigit c1 then
           (Inr (scan_while isdigit s (ptr + 1)), Some kTokenDataset,
            Some (ValueI (strtol_value s (ptr + 1))))
         else
           (Inl (SyntaxError (''unexpected character after '' @ [CHR 0x27, CHR ''@'', CHR 0x27])),
            Some kTokenDataset, None))
      else if c = CHR ''$'' then
        (if \<not> (isalpha c1 \<or> c1 = CHR ''_'' \<or> c1 = CHR ''*'') then
           (Inl (SyntaxError (''unexpected character after '' @ [CHR 0x27, CHR ''$'', CHR 0x27])),
            None, None)
         else (Inr (scan_while (name_char allow_glob) s (ptr + 2)), Some kTokenVarname, None))
      else if c = CHR ''%'' then
        (if \<not> (isalpha c1 \<or> c1 = CHR ''_'' \<or> c1 = CHR ''*'') then
           (Inl (SyntaxError (''unexpected character after '' @ [CHR 0x27, CHR ''%'', CHR 0x27])),
            None, None)
         else (Inr (scan_while (name_char allow_glob) s (ptr + 2)), Some kTokenFuncname, None))
      else
        (case single_char_token c of
           Some ty \<Rightarrow> (Inr (ptr + 1), Some ty, None)
         | None \<Rightarrow>
             if isdigit c then
               (Inr (strtod_end s ptr), Some kTokenNumber,
                Some (ValueD (substring s ptr (strtod_end s ptr - ptr))))
             else if isupper c then
               (if isalnum c1 then (Inr (scan_while isalnum s (ptr + 1)), Some kTokenCname, None)
                else (Inr (ptr + 1), Some kTokenUletter, None))
             else if isalpha c \<or> c = CHR ''_'' then
               (Inr (scan_while (\<lambda>x. isalnum x \<or> x = CHR ''_'') s ptr), Some kTokenLname, None)
             else (Inl (SyntaxError (''unexpected character: '' @ [c])), None, None)))"

text \<open>The assignments to \<open>tok_.type\<close> and \<open>tok_.value\<close> that the \<open>switch\<close> has made.\<close>

definition assigned :: "TokenType option \<Rightarrow> TokenValue option \<Rightarrow> Token \<Rightarrow> Token" where
  "assigned ty v t =
     (let t1 = (case ty of None \<Rightarrow> t | Some x \<Rightarrow> t\<lparr>type := x\<rparr>)
      in case v of None \<Rightarrow> t1 | Some x \<Rightarrow> t1\<lparr>value_t := x\<rparr>)"

text \<open>
  \<open>read_token\<close>: skip the white space, run the \<open>switch\<close>, then set the length and move the
  cursor. An exception leaves the cursor and the lookahead flag as they were; what was
  assigned to \<open>tok_\<close> before the \<open>throw\<close> stays.
\<close>

definition read_token :: "bool \<Rightarrow> Lexer \<Rightarrow> (exn + unit) \<times> Lexer" where
  "read_token allow_glob lx =
     (let start = scan_while isspace (input lx) (cur lx) in
      case scan_token allow_glob (input lx) start of
        (Inl e, ty, v) \<Rightarrow> (Inl e, lx\<lparr>tok := assigned ty v ((tok lx)\<lparr>str := start\<rparr>)\<rparr>)
      | (Inr ptr, ty, v) \<Rightarrow>
          (Inr (),
           lx\<lparr>tok := (assigned ty v ((tok lx)\<lparr>str := start\<rparr>))\<lparr>length_t := ptr - start\<rparr>,
              cur := ptr\<rparr>))"

subsection \<open>Getting and peeking tokens\<close>

text \<open>
  Each member function returns what it returns or throws, and the lexer after the call.
  \<open>read_token()\<close> without argument is \<open>read_token(false)\<close>: the glob star is read only by
  \<open>get_glob_token\<close>.
\<close>

definition get_token :: "Lexer \<Rightarrow> (exn + Token) \<times> Lexer" where
  "get_token lx =
     (if \<not> peeked lx then
        (case read_token False lx of
           (Inl e, lx1) \<Rightarrow> (Inl e, lx1)
         | (Inr u, lx1) \<Rightarrow> (Inr (tok lx1), lx1\<lparr>peeked := False\<rparr>))
      else (Inr (tok lx), lx\<lparr>peeked := False\<rparr>))"

definition peek_token :: "Lexer \<Rightarrow> (exn + Token) \<times> Lexer" where
  "peek_token lx =
     (if \<not> peeked lx then
        (case read_token False lx of
           (Inl e, lx1) \<Rightarrow> (Inl e, lx1)
         | (Inr u, lx1) \<Rightarrow> (Inr (tok lx1), lx1\<lparr>peeked := True\<rparr>))
      else (Inr (tok lx), lx\<lparr>peeked := True\<rparr>))"

definition go_back :: "Token \<Rightarrow> Lexer \<Rightarrow> Lexer" where
  "go_back token lx = lx\<lparr>cur := str token, peeked := False\<rparr>"

definition get_glob_token :: "Lexer \<Rightarrow> (exn + Token) \<times> Lexer" where
  "get_glob_token lx =
     (let lx0 = (if peeked lx then lx\<lparr>cur := str (tok lx), peeked := False\<rparr> else lx) in
      case read_token True lx0 of
        (Inl e, lx1) \<Rightarrow> (Inl e, lx1)
      | (Inr u, lx1) \<Rightarrow> (Inr (tok lx1), lx1))"

definition get_word_token :: "Lexer \<Rightarrow> (exn + Token) \<times> Lexer" where
  "get_word_token lx =
     (case get_token lx of
        (Inl e, lx1) \<Rightarrow> (Inl e, lx1)
      | (Inr t, lx1) \<Rightarrow>
          if type t = kTokenString \<or> type t = kTokenNop then (Inr t, lx1)
          else
            (let c = scan_while (\<lambda>x. \<not> isspace x \<and> x \<noteq> CHR '';'' \<and> x \<noteq> CHR ''#'')
                       (input lx1) (cur lx1)
             in (Inr (t\<lparr>type := kTokenWord, length_t := c - str t\<rparr>), lx1\<lparr>cur := c\<rparr>)))"

definition get_rest_of_cmd :: "Lexer \<Rightarrow> (exn + Token) \<times> Lexer" where
  "get_rest_of_cmd lx =
     (case get_token lx of
        (Inl e, lx1) \<Rightarrow> (Inl e, lx1)
      | (Inr t, lx1) \<Rightarrow>
          if type t = kTokenString \<or> type t = kTokenNop then (Inr t, lx1)
          else
            (let c = scan_while (\<lambda>x. x \<noteq> CHR '';'' \<and> x \<noteq> CHR ''#'') (input lx1) (cur lx1)
             in (Inr (t\<lparr>type := kTokenRest, length_t := c - str t\<rparr>), lx1\<lparr>cur := c\<rparr>)))"

definition get_rest_of_line :: "Lexer \<Rightarrow> Token \<times> Lexer" where
  "get_rest_of_line lx =
     (let c = scan_while isspace (input lx) (cur lx);
          start = (if peeked lx then str (tok lx) else c);
          e = scan_while (\<lambda>x. True) (input lx) c
      in (\<lparr>str = start, type = kTokenRest, length_t = e - start, value_t = Unset\<rparr>,
          lx\<lparr>cur := e, peeked := False\<rparr>))"

subsection \<open>Expecting tokens\<close>

text \<open>
  \<open>int pos = cur_ - input_\<close>: the offset of the cursor, narrowed to a 32-bit \<open>int\<close>.
\<close>

definition offset_int :: "nat \<Rightarrow> int" where
  "offset_int n = sint (word_of_nat n :: 32 word)"

definition throw_syntax_error :: "Lexer \<Rightarrow> string \<Rightarrow> exn" where
  "throw_syntax_error lx msg =
     (let pos = offset_int (cur lx);
          s = (if pos \<ge> 10
               then S pos @ '', near `'' @ substring (input lx) (cur lx - 10) 10 @ [CHR 0x27]
               else S pos)
      in SyntaxError (''at '' @ s @ '': '' @ msg))"

text \<open>\<open>get_expected_token(const string& raw)\<close>\<close>

definition get_expected_token_raw :: "string \<Rightarrow> Lexer \<Rightarrow> (exn + Token) \<times> Lexer" where
  "get_expected_token_raw raw lx =
     (case peek_token lx of
        (Inl e, lx1) \<Rightarrow> (Inl e, lx1)
      | (Inr t, lx1) \<Rightarrow>
          (let p = type t; s = as_string (input lx1) t in
           if s \<noteq> raw then
             (let msg = ''expected `'' @ raw @ [CHR 0x27] in
              (Inl (throw_syntax_error lx1
                      (if p = kTokenNop then msg
                       else msg @ '' instead of `'' @ s @ [CHR 0x27])),
               lx1))
           else get_token lx1))"

text \<open>\<open>get_expected_token(TokenType tt)\<close>\<close>

definition get_expected_token :: "TokenType \<Rightarrow> Lexer \<Rightarrow> (exn + Token) \<times> Lexer" where
  "get_expected_token tt lx =
     (case peek_token lx of
        (Inl e, lx1) \<Rightarrow> (Inl e, lx1)
      | (Inr t, lx1) \<Rightarrow>
          (let p = type t in
           if p \<noteq> tt then
             (let msg = ''expected '' @ tokentype2str tt in
              (Inl (throw_syntax_error lx1
                      (if p = kTokenNop then msg
                       else msg @ '' instead of '' @ tokentype2str p)),
               lx1))
           else get_token lx1))"

text \<open>\<open>get_expected_token(TokenType tt1, TokenType tt2)\<close>\<close>

definition get_expected_token2 :: "TokenType \<Rightarrow> TokenType \<Rightarrow> Lexer \<Rightarrow> (exn + Token) \<times> Lexer"
  where
  "get_expected_token2 tt1 tt2 lx =
     (case peek_token lx of
        (Inl e, lx1) \<Rightarrow> (Inl e, lx1)
      | (Inr t, lx1) \<Rightarrow>
          (let p = type t in
           if p \<noteq> tt1 \<and> p \<noteq> tt2 then
             (let msg = ''expected '' @ tokentype2str tt1 @ '' or '' @ tokentype2str tt2 in
              (Inl (throw_syntax_error lx1
                      (if p = kTokenNop then msg
                       else msg @ '' instead of '' @ tokentype2str p)),
               lx1))
           else get_token lx1))"

text \<open>\<open>get_expected_token(TokenType tt, const string& raw)\<close>\<close>

definition get_expected_token_or_raw ::
  "TokenType \<Rightarrow> string \<Rightarrow> Lexer \<Rightarrow> (exn + Token) \<times> Lexer" where
  "get_expected_token_or_raw tt raw lx =
     (case peek_token lx of
        (Inl e, lx1) \<Rightarrow> (Inl e, lx1)
      | (Inr t, lx1) \<Rightarrow>
          (let p = type t; s = as_string (input lx1) t in
           if p \<noteq> tt \<and> s \<noteq> raw then
             (let msg = ''expected '' @ tokentype2str tt @ '' or `'' @ raw @ [CHR 0x27] in
              (Inl (throw_syntax_error lx1
                      (if p = kTokenNop then msg
                       else msg @ '' instead of `'' @ s @ [CHR 0x27])),
               lx1))
           else get_token lx1))"

text \<open>\<open>get_expected_token(const string& raw1, const string& raw2)\<close>\<close>

definition get_expected_token_raw2 :: "string \<Rightarrow> string \<Rightarrow> Lexer \<Rightarrow> (exn + Token) \<times> Lexer"
  where
  "get_expected_token_raw2 raw1 raw2 lx =
     (case peek_token lx of
        (Inl e, lx1) \<Rightarrow> (Inl e, lx1)
      | (Inr t, lx1) \<Rightarrow>
          (let p = type t; s = as_string (input lx1) t in
           if s \<noteq> raw1 \<and> s \<noteq> raw2 then
             (let msg = ''expected `'' @ raw1 @ [CHR 0x27] @ '' or `'' @ raw2 @ [CHR 0x27] in
              (Inl (throw_syntax_error lx1
                      (if p = kTokenNop then msg
                       else msg @ '' instead of `'' @ s @ [CHR 0x27])),
               lx1))
           else get_token lx1))"

definition get_token_if :: "TokenType \<Rightarrow> Lexer \<Rightarrow> (exn + Token) \<times> Lexer" where
  "get_token_if tt lx =
     (case peek_token lx of
        (Inl e, lx1) \<Rightarrow> (Inl e, lx1)
      | (Inr t, lx1) \<Rightarrow>
          if type t = tt then get_token lx1
          else (Inr \<lparr>str = cur lx1, type = kTokenNop, length_t = 0, value_t = Unset\<rparr>, lx1))"

subsection \<open>States of the lexer\<close>

text \<open>
  While a token is buffered (\<open>peeked_\<close>), the cursor stands right behind it. The constructor
  establishes this and every member function keeps it.
\<close>

definition lookahead_ok :: "Lexer \<Rightarrow> bool" where
  "lookahead_ok lx = (peeked lx \<longrightarrow> cur lx = str (tok lx) + length_t (tok lx))"

subsection \<open>The operators of two characters\<close>

text \<open>
  The two-character operators with the token kind of each and the kind of the
  single-character token that its first character gives alone.
\<close>

definition two_char_operators :: "(char \<times> char \<times> TokenType \<times> TokenType) list" where
  "two_char_operators =
     [(CHR ''<'', CHR ''='', kTokenLE, kTokenLT),
      (CHR ''>'', CHR ''='', kTokenGE, kTokenGT),
      (CHR ''!'', CHR ''='', kTokenNE, kTokenBang),
      (CHR ''='', CHR ''='', kTokenEQ, kTokenAssign),
      (CHR ''>'', CHR ''>'', kTokenAppend, kTokenGT),
      (CHR ''+'', CHR ''='', kTokenAddAssign, kTokenPlus),
      (CHR ''-'', CHR ''='', kTokenSubAssign, kTokenMinus),
      (CHR ''+'', CHR ''-'', kTokenPlusMinus, kTokenPlus),
      (CHR ''.'', CHR ''.'', kTokenDots, kTokenDot),
      (CHR ''<'', CHR ''>'', kTokenNE, kTokenLT)]"

text \<open>
  Does the character \<open>c\<close> behind the character \<open>a\<close> make \<open>read_token\<close> go on beyond \<open>a\<close>:
  as the second character of an operator, or as a digit behind a dot?
\<close>

definition continues_token :: "char \<Rightarrow> char \<Rightarrow> bool" where
  "continues_token a c =
     (list_ex (\<lambda>(a', b', k2, k1). a = a' \<and> c = b') two_char_operators \<or>
      (a = CHR ''.'' \<and> isdigit c))"

text \<open>
  \<open>read_token\<close> returns, and the token it has read has the kind \<open>k\<close>, starts at \<open>start\<close> and
  is \<open>n\<close> characters long, the cursor standing behind it.
\<close>

definition reads :: "bool \<Rightarrow> Lexer \<Rightarrow> nat \<Rightarrow> TokenType \<Rightarrow> nat \<Rightarrow> bool" where
  "reads allow_glob lx start k n =
     (case read_token allow_glob lx of
        (Inl e, lx1) \<Rightarrow> False
      | (Inr u, lx1) \<Rightarrow>
          type (tok lx1) = k \<and> str (tok lx1) = start \<and> length_t (tok lx1) = n \<and>
          cur lx1 = start + n \<and> input lx1 = input lx)"

section \<open>Properties of the reconciler\<close>

lemma undefine_removed_acc:
  "undefine_removed tpvec modified ss = ss @ undefine_removed tpvec modified []"
proof (induction tpvec arbitrary: ss)
  case Nil
  show ?case by simp
next
  case (Cons i rest)
  show ?case
    using Cons.IH [of "ss @ [''undefine '' @ name i]"] Cons.IH [of "[''undefine '' @ name i]"]
      Cons.IH [of ss]
    by simp
qed

lemma match_committed_acc:
  "match_committed i tpvec ss =
     (fst (match_committed i tpvec []), ss @ snd (match_committed i tpvec []))"
  by (induction tpvec) simp_all

lemma patch_template_acc: "patch_template tpvec i ss = ss @ patch_template tpvec i []"
  using match_committed_acc [of i tpvec ss]
  by (simp add: patch_template_def split: prod.splits)

lemma define_changed_acc:
  "define_changed tpvec modified ss = ss @ define_changed tpvec modified []"
proof (induction modified arbitrary: ss)
  case Nil
  show ?case by simp
next
  case (Cons i rest)
  have "define_changed tpvec (i # rest) ss = patch_template tpvec i ss @ define_changed tpvec rest []"
    using Cons.IH [of "patch_template tpvec i ss"] by simp
  also have "\<dots> = ss @ patch_template tpvec i [] @ define_changed tpvec rest []"
    using patch_template_acc [of tpvec i ss] by simp
  also have "\<dots> = ss @ define_changed tpvec (i # rest) []"
    using Cons.IH [of "patch_template tpvec i []"] by simp
  finally show ?case .
qed

lemma define_changed_Cons:
  "define_changed tpvec (i # rest) [] = patch_template tpvec i [] @ define_changed tpvec rest []"
  using define_changed_acc [of tpvec rest "patch_template tpvec i []"] by simp

lemma define_changed_append:
  "define_changed tpvec (xs @ ys) [] = define_changed tpvec xs [] @ define_changed tpvec ys []"
  by (induction xs) (simp_all add: define_changed_Cons del: define_changed.simps(2))

lemma get_commands_phases:
  "get_commands tpvec modified =
     undefine_removed tpvec modified [] @ define_changed tpvec modified []"
  unfolding get_commands_def by (rule define_changed_acc)

lemma is_undefine_cmd: "is_undefine (''undefine '' @ n)"
  by (simp add: is_undefine_def)

lemma is_define_cmd: "is_define (''define '' @ f)"
  by (simp add: is_define_def)

lemma not_both: "is_define c \<Longrightarrow> \<not> is_undefine c"
  by (cases c) (auto simp: is_define_def is_undefine_def)

lemma undefine_removed_Cons:
  "undefine_removed (i # rest) modified [] =
     (if name_found (name i) modified then [] else [''undefine '' @ name i])
       @ undefine_removed rest modified []"
  using undefine_removed_acc [of rest modified "[''undefine '' @ name i]"] by simp

lemma undefine_removed_only_undefines:
  "\<forall>c \<in> set (undefine_removed tpvec modified []). is_undefine c"
  by (induction tpvec)
    (simp_all add: undefine_removed_Cons is_undefine_def del: undefine_removed.simps(2))

lemma patch_template_cases:
  "patch_template tpvec i [] = [] \<or>
   patch_template tpvec i [] = [''define '' @ as_formula i] \<or>
   patch_template tpvec i [] = [''undefine '' @ name i, ''define '' @ as_formula i]"
  by (induction tpvec) (simp_all add: patch_template_def)

lemma undefine_then_define_chunk:
  assumes "undefine_then_define cs"
  shows "undefine_then_define (patch_template tpvec i [] @ cs)"
proof -
  have d: "undefine_then_define ((''define '' @ f) # cs)" for f
    using assms not_both [OF is_define_cmd] by (cases cs) simp_all
  have "undefine_then_define ((''undefine '' @ n) # (''define '' @ f) # cs)" for n f
    using d [of f] by (simp add: is_define_cmd del: append.simps)
  with d assms show ?thesis
    using patch_template_cases [of tpvec i] by (auto simp del: undefine_then_define.simps)
qed

lemma undefine_then_define_patch: "undefine_then_define (define_changed tpvec modified [])"
  by (induction modified)
    (simp_all add: define_changed_Cons undefine_then_define_chunk del: define_changed.simps(2))

lemma undefine_removed_none:
  "\<forall>i \<in> set xs. name_found (name i) modified \<Longrightarrow> undefine_removed xs modified [] = []"
  by (induction xs) simp_all

lemma define_changed_none:
  "\<forall>i \<in> set xs. patch_template tpvec i [] = [] \<Longrightarrow> define_changed tpvec xs [] = []"
  by (induction xs) simp_all

lemma name_found_iff: "name_found n xs \<longleftrightarrow> n \<in> set (map name xs)"
  by (induction xs) auto

lemma match_committed_same:
  assumes "distinct (map name tpvec)" and "c \<in> set tpvec" and "same_definition t c"
  shows "match_committed t tpvec ss = (False, ss)"
  using assms
proof (induction tpvec)
  case Nil
  then show ?case by simp
next
  case (Cons j js)
  show ?case
  proof (cases "name t = name j")
    case True
    have "c = j"
    proof (rule ccontr)
      assume "c \<noteq> j"
      with Cons.prems(2) have "c \<in> set js" by simp
      then have "name c \<in> set (map name js)" by simp
      moreover have "name c = name j"
        using True Cons.prems(3) by (simp add: same_definition_def)
      ultimately show False using Cons.prems(1) by simp
    qed
    with Cons.prems(3) show ?thesis by (simp add: same_definition_def)
  next
    case False
    then have "c \<noteq> j" using Cons.prems(3) by (auto simp: same_definition_def)
    with Cons.prems have "match_committed t js ss = (False, ss)"
      by (intro Cons.IH) simp_all
    with False show ?thesis by simp
  qed
qed

lemma patch_template_same:
  assumes "distinct (map name tpvec)" and "c \<in> set tpvec" and "same_definition t c"
  shows "patch_template tpvec t ss = ss"
  using match_committed_same [OF assms] by (simp add: patch_template_def)

lemma same_definition_refl: "same_definition t t"
  by (simp add: same_definition_def)

lemma get_commands_identical:
  assumes "distinct (map name tpvec)"
  shows "get_commands tpvec tpvec = []"
proof -
  have "undefine_removed tpvec tpvec [] = []"
    by (rule undefine_removed_none) (simp add: name_found_iff)
  moreover have "define_changed tpvec tpvec [] = []"
    by (rule define_changed_none) (simp add: patch_template_same [OF assms _ same_definition_refl])
  ultimately show ?thesis by (simp add: get_commands_phases)
qed

lemma name_found_cong:
  "list_all2 same_definition xs ys \<Longrightarrow> name_found n xs = name_found n ys"
  by (induction xs ys rule: list_all2_induct) (simp_all add: same_definition_def)

lemma undefine_removed_cong:
  assumes "list_all2 same_definition tpvec tpvec'" and "list_all2 same_definition ms ms'"
  shows "undefine_removed tpvec ms ss = undefine_removed tpvec' ms' ss"
  using assms(1)
proof (induction tpvec tpvec' arbitrary: ss rule: list_all2_induct)
  case Nil
  show ?case by simp
next
  case (Cons i rest i' rest')
  have "name i = name i'" using Cons.hyps(1) by (simp add: same_definition_def)
  then show ?case
    using Cons.IH name_found_cong [OF assms(2), of "name i'"] by simp
qed

lemma match_committed_cong:
  assumes "same_definition i i'"
  shows "list_all2 same_definition tpvec tpvec' \<Longrightarrow>
    match_committed i tpvec ss = match_committed i' tpvec' ss"
proof (induction tpvec tpvec' rule: list_all2_induct)
  case Nil
  show ?case by simp
next
  case (Cons j js j' js')
  then show ?case using assms by (simp add: same_definition_def)
qed

lemma as_formula_cong: "same_definition i i' \<Longrightarrow> as_formula i = as_formula i'"
  by (simp add: same_definition_def as_formula_def)

lemma patch_template_cong:
  assumes "same_definition i i'" and "list_all2 same_definition tpvec tpvec'"
  shows "patch_template tpvec i ss = patch_template tpvec' i' ss"
  using match_committed_cong [OF assms, of ss] as_formula_cong [OF assms(1)]
  by (simp add: patch_template_def split: prod.splits)

lemma define_changed_cong:
  assumes "list_all2 same_definition tpvec tpvec'"
  shows "list_all2 same_definition ms ms' \<Longrightarrow>
    define_changed tpvec ms ss = define_changed tpvec' ms' ss"
proof (induction ms ms' arbitrary: ss rule: list_all2_induct)
  case Nil
  show ?case by simp
next
  case (Cons i rest i' rest')
  then show ?case using patch_template_cong [OF Cons.hyps(1) assms] by simp
qed

lemma get_commands_cong:
  assumes "list_all2 same_definition tpvec tpvec'" and "list_all2 same_definition ms ms'"
  shows "get_commands tpvec ms = get_commands tpvec' ms'"
  unfolding get_commands_def
  using define_changed_cong [OF assms] undefine_removed_cong [OF assms] by simp

lemma list_all2_same_definition_refl: "list_all2 same_definition xs xs"
  by (simp add: list_all2_refl same_definition_refl)

lemma patch_template_absent:
  "\<not> name_found (name i) tpvec \<Longrightarrow> patch_template tpvec i [] = [''define '' @ as_formula i]"
  by (induction tpvec) (simp_all add: patch_template_def split: if_splits)

lemma undefine_removed_eq:
  "undefine_removed tpvec modified [] =
     map (\<lambda>t. ''undefine '' @ name t) (filter (\<lambda>t. \<not> name_found (name t) modified) tpvec)"
  by (induction tpvec) (simp_all add: undefine_removed_Cons del: undefine_removed.simps(2))

lemma define_changed_eq:
  "define_changed tpvec modified [] = concat (map (\<lambda>i. patch_template tpvec i []) modified)"
  by (induction modified) (simp_all add: define_changed_Cons del: define_changed.simps(2))

lemma patch_template_find:
  "patch_template tpvec i [] =
     (case find (\<lambda>j. name i = name j) tpvec of
        None \<Rightarrow> [''define '' @ as_formula i]
      | Some j \<Rightarrow>
          if fargs i = fargs j \<and> defvals i = defvals j \<and> rhs i = rhs j then []
          else [''undefine '' @ name i, ''define '' @ as_formula i])"
proof (induction tpvec)
  case Nil
  show ?case by (simp add: patch_template_def)
next
  case (Cons j js)
  show ?case
  proof (cases "name i = name j")
    case True
    then show ?thesis by (simp add: patch_template_def)
  next
    case False
    with Cons show ?thesis by (simp add: patch_template_def)
  qed
qed

subsection \<open>The claims about \<open>get_commands\<close>\<close>

text \<open>
  C1, as stated: every \<open>undefine\<close> stands before every \<open>define\<close>. This fails when two
  templates of the working copy differ from their committed versions: the second loop emits
  the \<open>undefine\<close> of each changed template right before its \<open>define\<close>, so the \<open>define\<close>
  of the first stands before the \<open>undefine\<close> of the second.
\<close>

theorem define_before_undefine_counterexample:
  "get_commands
     [user_tplate ''Foo'' [''a''] ''a*x'', user_tplate ''Bar'' [''b''] ''b*x'']
     [user_tplate ''Foo'' [''a''] ''a*x+1'', user_tplate ''Bar'' [''b''] ''b*x+1'']
   = [''undefine Foo'', ''define '' @ as_formula (user_tplate ''Foo'' [''a''] ''a*x+1''),
      ''undefine Bar'', ''define '' @ as_formula (user_tplate ''Bar'' [''b''] ''b*x+1'')]
   \<and> \<not> undefines_first (get_commands
     [user_tplate ''Foo'' [''a''] ''a*x'', user_tplate ''Bar'' [''b''] ''b*x'']
     [user_tplate ''Foo'' [''a''] ''a*x+1'', user_tplate ''Bar'' [''b''] ''b*x+1''])"
proof -
  have c: "get_commands
     [user_tplate ''Foo'' [''a''] ''a*x'', user_tplate ''Bar'' [''b''] ''b*x'']
     [user_tplate ''Foo'' [''a''] ''a*x+1'', user_tplate ''Bar'' [''b''] ''b*x+1'']
   = [''undefine '' @ ''Foo'', ''define '' @ as_formula (user_tplate ''Foo'' [''a''] ''a*x+1''),
      ''undefine '' @ ''Bar'', ''define '' @ as_formula (user_tplate ''Bar'' [''b''] ''b*x+1'')]"
    by (simp add: get_commands_def patch_template_def user_tplate_def)
  have "\<not> undefines_first
    [''undefine '' @ ''Foo'', ''define '' @ as_formula (user_tplate ''Foo'' [''a''] ''a*x+1''),
     ''undefine '' @ ''Bar'', ''define '' @ as_formula (user_tplate ''Bar'' [''b''] ''b*x+1'')]"
    using is_define_cmd is_undefine_cmd
    by (simp del: append.simps)
  with c show ?thesis by simp
qed

text \<open>
  C1, amended: the output is the \<open>undefine\<close> commands for the committed names that the
  working copy lacks, in committed order, followed by the commands for the working-copy
  templates in their order. A working-copy template contributes: nothing, if the first
  committed template of its name has the same formal arguments, default values and
  right-hand side; \<open>undefine <name>\<close> directly followed by its own \<open>define\<close>, if that
  committed template differs; its \<open>define\<close> alone, if no committed template has its name.
  So the first part holds only \<open>undefine\<close> commands and precedes every \<open>define\<close>, and in
  the second part every \<open>undefine\<close> is directly followed by a \<open>define\<close>; the \<open>undefine\<close>
  of a changed name may follow the \<open>define\<close> of an earlier template.
\<close>

theorem get_commands_order:
  "get_commands tpvec modified =
     undefine_removed tpvec modified [] @ define_changed tpvec modified []
   \<and> undefine_removed tpvec modified [] =
       map (\<lambda>t. ''undefine '' @ name t) (filter (\<lambda>t. \<not> name_found (name t) modified) tpvec)
   \<and> (\<forall>n. name_found n modified \<longleftrightarrow> n \<in> set (map name modified))
   \<and> define_changed tpvec modified [] = concat (map (\<lambda>i. patch_template tpvec i []) modified)
   \<and> (\<forall>i. patch_template tpvec i [] =
         (case find (\<lambda>j. name i = name j) tpvec of
            None \<Rightarrow> [''define '' @ as_formula i]
          | Some j \<Rightarrow>
              if fargs i = fargs j \<and> defvals i = defvals j \<and> rhs i = rhs j then []
              else [''undefine '' @ name i, ''define '' @ as_formula i]))
   \<and> (\<forall>c \<in> set (undefine_removed tpvec modified []). is_undefine c)
   \<and> undefine_then_define (define_changed tpvec modified [])"
proof (intro conjI allI)
  show "get_commands tpvec modified =
     undefine_removed tpvec modified [] @ define_changed tpvec modified []"
    by (rule get_commands_phases)
  show "undefine_removed tpvec modified [] =
       map (\<lambda>t. ''undefine '' @ name t) (filter (\<lambda>t. \<not> name_found (name t) modified) tpvec)"
    by (rule undefine_removed_eq)
  show "name_found n modified \<longleftrightarrow> n \<in> set (map name modified)" for n
    by (rule name_found_iff)
  show "define_changed tpvec modified [] = concat (map (\<lambda>i. patch_template tpvec i []) modified)"
    by (rule define_changed_eq)
  show "patch_template tpvec i [] =
         (case find (\<lambda>j. name i = name j) tpvec of
            None \<Rightarrow> [''define '' @ as_formula i]
          | Some j \<Rightarrow>
              if fargs i = fargs j \<and> defvals i = defvals j \<and> rhs i = rhs j then []
              else [''undefine '' @ name i, ''define '' @ as_formula i])" for i
    by (rule patch_template_find)
  show "\<forall>c \<in> set (undefine_removed tpvec modified []). is_undefine c"
    by (rule undefine_removed_only_undefines)
  show "undefine_then_define (define_changed tpvec modified [])"
    by (rule undefine_then_define_patch)
qed

theorem get_commands_order_witness:
  "get_commands
     [user_tplate ''Foo'' [''a''] ''a*x'', user_tplate ''Bar'' [''b''] ''b*x'',
      user_tplate ''Baz'' [] ''x'', user_tplate ''Qux'' [''c''] ''c'']
     [user_tplate ''Foo'' [''a''] ''a*x+1'', user_tplate ''Qux'' [''c''] ''c'',
      user_tplate ''Bar'' [''b''] ''b*x+1'', user_tplate ''New'' [] ''x*x'']
   = [''undefine Baz''] @
     [''undefine Foo'', ''define '' @ as_formula (user_tplate ''Foo'' [''a''] ''a*x+1'')] @
     [] @
     [''undefine Bar'', ''define '' @ as_formula (user_tplate ''Bar'' [''b''] ''b*x+1'')] @
     [''define '' @ as_formula (user_tplate ''New'' [] ''x*x'')]
   \<and> is_undefine ''undefine Baz''
   \<and> undefine_then_define
     [''undefine Foo'', ''define '' @ as_formula (user_tplate ''Foo'' [''a''] ''a*x+1''),
      ''undefine Bar'', ''define '' @ as_formula (user_tplate ''Bar'' [''b''] ''b*x+1''),
      ''define '' @ as_formula (user_tplate ''New'' [] ''x*x'')]"
proof -
  define tpvec where "tpvec =
     [user_tplate ''Foo'' [''a''] ''a*x'', user_tplate ''Bar'' [''b''] ''b*x'',
      user_tplate ''Baz'' [] ''x'', user_tplate ''Qux'' [''c''] ''c'']"
  define modified where "modified =
     [user_tplate ''Foo'' [''a''] ''a*x+1'', user_tplate ''Qux'' [''c''] ''c'',
      user_tplate ''Bar'' [''b''] ''b*x+1'', user_tplate ''New'' [] ''x*x'']"
  note t = get_commands_order [of tpvec modified]
  from t have g: "get_commands tpvec modified =
      map (\<lambda>t. ''undefine '' @ name t) (filter (\<lambda>t. name t \<notin> set (map name modified)) tpvec) @
      concat (map (\<lambda>i. case find (\<lambda>j. name i = name j) tpvec of
            None \<Rightarrow> [''define '' @ as_formula i]
          | Some j \<Rightarrow>
              if fargs i = fargs j \<and> defvals i = defvals j \<and> rhs i = rhs j then []
              else [''undefine '' @ name i, ''define '' @ as_formula i]) modified)"
    by simp
  have c: "get_commands tpvec modified =
     [''undefine Baz'', ''undefine Foo'',
      ''define '' @ as_formula (user_tplate ''Foo'' [''a''] ''a*x+1''),
      ''undefine Bar'', ''define '' @ as_formula (user_tplate ''Bar'' [''b''] ''b*x+1''),
      ''define '' @ as_formula (user_tplate ''New'' [] ''x*x'')]"
    unfolding g by (simp add: tpvec_def modified_def user_tplate_def)
  from t c have "(\<forall>c \<in> set (undefine_removed tpvec modified []). is_undefine c)"
    and "undefine_then_define (define_changed tpvec modified [])"
    by blast+
  moreover have "undefine_removed tpvec modified [] = [''undefine Baz'']"
    by (simp add: tpvec_def modified_def user_tplate_def)
  moreover have "define_changed tpvec modified [] =
     [''undefine Foo'', ''define '' @ as_formula (user_tplate ''Foo'' [''a''] ''a*x+1''),
      ''undefine Bar'', ''define '' @ as_formula (user_tplate ''Bar'' [''b''] ''b*x+1''),
      ''define '' @ as_formula (user_tplate ''New'' [] ''x*x'')]"
    by (simp add: tpvec_def modified_def user_tplate_def patch_template_def)
  ultimately show ?thesis using c unfolding tpvec_def modified_def by simp
qed

text \<open>
  C2, as stated: a working copy with two templates of one name yields a validation error
  and no commands. \<open>get_commands\<close> has no validation and no error result; here the working
  copy holds two templates named \<open>Bar\<close> and a \<open>define\<close> is returned for each.
\<close>

theorem duplicate_names_counterexample:
  "\<not> distinct (map name
       [user_tplate ''Foo'' [''a''] ''a*x'', user_tplate ''Bar'' [''b''] ''b*x'',
        user_tplate ''Bar'' [''c''] ''c+x''])
   \<and> get_commands
       [user_tplate ''Foo'' [''a''] ''a*x'']
       [user_tplate ''Foo'' [''a''] ''a*x'', user_tplate ''Bar'' [''b''] ''b*x'',
        user_tplate ''Bar'' [''c''] ''c+x'']
     = [''define '' @ as_formula (user_tplate ''Bar'' [''b''] ''b*x''),
        ''define '' @ as_formula (user_tplate ''Bar'' [''c''] ''c+x'')]"
  by (simp add: get_commands_def patch_template_def user_tplate_def)

text \<open>
  C2, amended: \<open>get_commands\<close> does not reject a working copy with two templates of one
  name. It returns the usual command sequence, in which each of the two templates
  contributes the commands of its own comparison with the committed sequence; when no
  committed template has that name, that is one \<open>define\<close> for each of them.
\<close>

theorem duplicate_names_not_rejected:
  assumes "modified = xs @ a # ys @ b # zs" and "name a = name b"
  shows "get_commands tpvec modified =
           undefine_removed tpvec modified [] @ define_changed tpvec xs [] @
           patch_template tpvec a [] @ define_changed tpvec ys [] @
           patch_template tpvec b [] @ define_changed tpvec zs []
         \<and> (\<not> name_found (name a) tpvec \<longrightarrow>
              patch_template tpvec a [] = [''define '' @ as_formula a] \<and>
              patch_template tpvec b [] = [''define '' @ as_formula b])"
proof -
  have "define_changed tpvec modified [] =
          define_changed tpvec xs [] @ patch_template tpvec a [] @ define_changed tpvec ys [] @
          patch_template tpvec b [] @ define_changed tpvec zs []"
    unfolding assms(1) by (simp only: define_changed_append define_changed_Cons append_assoc)
  then have "get_commands tpvec modified =
           undefine_removed tpvec modified [] @ define_changed tpvec xs [] @
           patch_template tpvec a [] @ define_changed tpvec ys [] @
           patch_template tpvec b [] @ define_changed tpvec zs []"
    by (simp only: get_commands_phases)
  moreover have "patch_template tpvec a [] = [''define '' @ as_formula a] \<and>
              patch_template tpvec b [] = [''define '' @ as_formula b]"
    if "\<not> name_found (name a) tpvec"
    using that patch_template_absent [of a tpvec] patch_template_absent [of b tpvec] assms(2)
    by simp
  ultimately show ?thesis by blast
qed

theorem duplicate_names_not_rejected_witness:
  "get_commands
       [user_tplate ''Foo'' [''a''] ''a*x'']
       [user_tplate ''Foo'' [''a''] ''a*x'', user_tplate ''Bar'' [''b''] ''b*x'',
        user_tplate ''Bar'' [''c''] ''c+x'']
     = [] @ [] @ [''define '' @ as_formula (user_tplate ''Bar'' [''b''] ''b*x'')] @ [] @
       [''define '' @ as_formula (user_tplate ''Bar'' [''c''] ''c+x'')] @ []"
  using duplicate_names_not_rejected
    [of "[user_tplate ''Foo'' [''a''] ''a*x'', user_tplate ''Bar'' [''b''] ''b*x'',
          user_tplate ''Bar'' [''c''] ''c+x'']"
        "[user_tplate ''Foo'' [''a''] ''a*x'']" "user_tplate ''Bar'' [''b''] ''b*x''" "[]"
        "user_tplate ''Bar'' [''c''] ''c+x''" "[]" "[user_tplate ''Foo'' [''a''] ''a*x'']"]
  by (simp add: user_tplate_def patch_template_def)

text \<open>
  C4: for a committed sequence (whose names are unique, as in the registry), reconciling it
  against an identical working copy returns no commands; and a working-copy template whose
  name, formal arguments, default values and right-hand side equal those of the committed
  template of that name adds no command.
\<close>

theorem reconcile_identical:
  "distinct (map name tpvec) \<Longrightarrow>
     get_commands tpvec tpvec = [] \<and>
     (\<forall>t c ss. c \<in> set tpvec \<and> same_definition t c \<longrightarrow> patch_template tpvec t ss = ss)"
  using get_commands_identical patch_template_same by blast

theorem reconcile_identical_witness:
  "distinct (map name [user_tplate ''Foo'' [''a''] ''a*x'', user_tplate ''Bar'' [''b''] ''b*x''])
   \<and> get_commands [user_tplate ''Foo'' [''a''] ''a*x'', user_tplate ''Bar'' [''b''] ''b*x'']
        [user_tplate ''Foo'' [''a''] ''a*x'', user_tplate ''Bar'' [''b''] ''b*x''] = []
   \<and> patch_template [user_tplate ''Foo'' [''a''] ''a*x'', user_tplate ''Bar'' [''b''] ''b*x'']
        ((user_tplate ''Bar'' [''b''] ''b*x'')\<lparr>traits := 2\<rparr>) [''undefine Baz'']
      = [''undefine Baz'']"
proof -
  have d: "distinct (map name
      [user_tplate ''Foo'' [''a''] ''a*x'', user_tplate ''Bar'' [''b''] ''b*x''])"
    by (simp add: user_tplate_def)
  have m: "user_tplate ''Bar'' [''b''] ''b*x''
      \<in> set [user_tplate ''Foo'' [''a''] ''a*x'', user_tplate ''Bar'' [''b''] ''b*x'']
    \<and> same_definition ((user_tplate ''Bar'' [''b''] ''b*x'')\<lparr>traits := 2\<rparr>)
        (user_tplate ''Bar'' [''b''] ''b*x'')"
    by (simp add: same_definition_def)
  show ?thesis using d m reconcile_identical [OF d] by blast
qed

text \<open>
  C9: two working copies that agree, template by template, on name, formal arguments,
  default values and right-hand side give the same commands, whatever their traits,
  documentation anchors and native-implementation flags; in particular a working copy that
  differs from the committed sequence only in those other fields gives no commands.
\<close>

theorem get_commands_depends_on_definition_only:
  "list_all2 same_definition modified modified' \<Longrightarrow>
     get_commands tpvec modified = get_commands tpvec modified' \<and>
     (distinct (map name tpvec) \<and> list_all2 same_definition modified tpvec \<longrightarrow>
        get_commands tpvec modified = [])"
  using get_commands_cong [OF list_all2_same_definition_refl]
    get_commands_identical [of tpvec] by metis

theorem get_commands_depends_on_definition_only_witness:
  "list_all2 same_definition
     [(user_tplate ''Foo'' [''a''] ''a*x'')\<lparr>traits := 1, docs_fragment := Some ''foo''\<rparr>]
     [user_tplate ''Foo'' [''a''] ''a*x'']
   \<and> distinct (map name [user_tplate ''Foo'' [''a''] ''a*x''])
   \<and> get_commands [user_tplate ''Foo'' [''a''] ''a*x'']
       [(user_tplate ''Foo'' [''a''] ''a*x'')\<lparr>traits := 1, docs_fragment := Some ''foo''\<rparr>]
     = []"
proof -
  have s: "list_all2 same_definition
     [(user_tplate ''Foo'' [''a''] ''a*x'')\<lparr>traits := 1, docs_fragment := Some ''foo''\<rparr>]
     [user_tplate ''Foo'' [''a''] ''a*x'']"
    by (simp add: same_definition_def)
  have d: "distinct (map name [user_tplate ''Foo'' [''a''] ''a*x''])" by simp
  show ?thesis
    using s d get_commands_depends_on_definition_only [OF s, of "[user_tplate ''Foo'' [''a''] ''a*x'']"]
    by blast
qed

section \<open>Properties of the lexer\<close>

subsection \<open>Reading one token\<close>

lemma scan_while_ge: "i \<le> scan_while P s i"
  by (simp add: scan_while_def)

lemma scan_while_ge1: "i \<le> scan_while P s (i + 1)" "i \<le> scan_while P s (Suc i)"
  using scan_while_ge [of "i + 1" P s] by simp_all

lemma scan_while_ge2: "i \<le> scan_while P s (i + 2)" "i \<le> scan_while P s (Suc (Suc i))"
  using scan_while_ge [of "i + 2" P s] by simp_all

lemma float_end_ge: "i \<le> float_end digit e1 e2 s i"
proof -
  define a where "a = scan_while digit s i"
  define b where "b = (if char_at s a = CHR ''.'' then scan_while digit s (a + 1) else a)"
  have a: "i \<le> a" unfolding a_def by (rule scan_while_ge)
  have b: "i \<le> b" unfolding b_def using a scan_while_ge1(1) [of a digit s] by simp
  have c: "b \<le> scan_while isdigit s (b + 1)" "b \<le> scan_while isdigit s (b + 2)"
    by (rule scan_while_ge1 scan_while_ge2)+
  have "b \<le> float_end digit e1 e2 s i"
    unfolding float_end_def Let_def a_def [symmetric] b_def [symmetric] using c by simp
  with b show ?thesis by simp
qed

lemma strtod_end_ge: "i \<le> strtod_end s i"
proof -
  have "i \<le> float_end isdigit (CHR ''e'') (CHR ''E'') s i" by (rule float_end_ge)
  moreover have "i + 2 \<le> float_end isxdigit (CHR ''p'') (CHR ''P'') s (i + 2)"
    by (rule float_end_ge)
  then have "i \<le> float_end isxdigit (CHR ''p'') (CHR ''P'') s (i + 2)" by simp
  ultimately show ?thesis by (simp add: strtod_end_def)
qed

lemma strchr_ge: "strchr s i c = Some e \<Longrightarrow> i \<le> e"
  by (auto simp: strchr_def Let_def split: if_splits)

lemma scan_token_ge:
  "case fst (scan_token g s i) of Inr ptr \<Rightarrow> i \<le> ptr | Inl e \<Rightarrow> True"
  unfolding scan_token_def Let_def
  by (auto split: option.split dest!: strchr_ge
      simp: le_SucI scan_while_ge scan_while_ge1 scan_while_ge2 strtod_end_ge)

lemma str_assigned [simp]: "str (assigned ty v t) = str t"
  by (simp add: assigned_def Let_def split: option.split)

lemma length_assigned [simp]: "length_t (assigned ty v t) = length_t t"
  by (simp add: assigned_def Let_def split: option.split)

lemma assigned_idem:
  "assigned ty v ((assigned ty v t)\<lparr>str := i\<rparr>) = (assigned ty v t)\<lparr>str := i\<rparr>"
  by (simp add: assigned_def Let_def split: option.split)

lemma assigned_str_same: "(assigned ty v (t\<lparr>str := i\<rparr>))\<lparr>str := i\<rparr> = assigned ty v (t\<lparr>str := i\<rparr>)"
  by (simp add: assigned_def Let_def split: option.split)

lemma read_token_ok:
  assumes "read_token g lx = (Inr u, lx1)"
  shows "cur lx1 = str (tok lx1) + length_t (tok lx1) \<and> peeked lx1 = peeked lx \<and>
         input lx1 = input lx \<and> str (tok lx1) = scan_while isspace (input lx) (cur lx)"
proof -
  define start where "start = scan_while isspace (input lx) (cur lx)"
  obtain r ty v where sc: "scan_token g (input lx) start = (r, ty, v)"
    by (cases "scan_token g (input lx) start") auto
  from assms sc obtain ptr where r: "r = Inr ptr"
    unfolding read_token_def Let_def start_def [symmetric] by (cases r) auto
  have "start \<le> ptr" using scan_token_ge [where g = g and s = "input lx" and i = start] sc r by simp
  moreover have "lx1 = lx\<lparr>tok := (assigned ty v ((tok lx)\<lparr>str := start\<rparr>))\<lparr>length_t := ptr - start\<rparr>,
              cur := ptr\<rparr>"
    using assms sc r unfolding read_token_def Let_def start_def [symmetric] by simp
  ultimately show ?thesis by (simp add: start_def)
qed

lemma read_token_throw:
  assumes "read_token g lx = (Inl e, lx1)"
  shows "read_token g lx1 = (Inl e, lx1) \<and> cur lx1 = cur lx \<and> peeked lx1 = peeked lx \<and>
         input lx1 = input lx"
proof -
  define start where "start = scan_while isspace (input lx) (cur lx)"
  obtain r ty v where sc: "scan_token g (input lx) start = (r, ty, v)"
    by (cases "scan_token g (input lx) start") auto
  from assms sc have r: "r = Inl e"
    unfolding read_token_def Let_def start_def [symmetric] by (cases r) auto
  have lx1: "lx1 = lx\<lparr>tok := assigned ty v ((tok lx)\<lparr>str := start\<rparr>)\<rparr>"
    using assms sc r unfolding read_token_def Let_def start_def [symmetric] by simp
  have "read_token g lx1 = (Inl e, lx1)"
    unfolding read_token_def Let_def
    using sc r by (simp add: lx1 start_def [symmetric] assigned_idem)
  then show ?thesis by (simp add: lx1)
qed

lemma read_token_cases:
  obtains (throws) e lx1 where "read_token g lx = (Inl e, lx1)"
  | (returns) lx1 where "read_token g lx = (Inr (), lx1)"
proof (cases "read_token g lx")
  case (Pair r lx1)
  then show ?thesis using that by (cases r) auto
qed

lemma peek_token_unpeeked:
  assumes "\<not> peeked lx"
  shows "read_token False lx = (Inl e, lx1) \<Longrightarrow> peek_token lx = (Inl e, lx1)"
    and "read_token False lx = (Inr u, lx1) \<Longrightarrow>
           peek_token lx = (Inr (tok lx1), lx1\<lparr>peeked := True\<rparr>)"
  using assms by (simp_all add: peek_token_def)

lemma get_token_unpeeked:
  assumes "\<not> peeked lx"
  shows "read_token False lx = (Inl e, lx1) \<Longrightarrow> get_token lx = (Inl e, lx1)"
    and "read_token False lx = (Inr u, lx1) \<Longrightarrow>
           get_token lx = (Inr (tok lx1), lx1\<lparr>peeked := False\<rparr>)"
  using assms by (simp_all add: get_token_def)

lemma peek_token_peeked: "peeked lx \<Longrightarrow> peek_token lx = (Inr (tok lx), lx)"
  by (simp add: peek_token_def)

lemma get_token_peeked: "peeked lx \<Longrightarrow> get_token lx = (Inr (tok lx), lx\<lparr>peeked := False\<rparr>)"
  by (simp add: get_token_def)

lemma peek_token_ok:
  assumes "lookahead_ok lx" and "peek_token lx = (Inr t, lx1)"
  shows "peeked lx1 \<and> tok lx1 = t \<and> cur lx1 = str t + length_t t \<and> input lx1 = input lx"
proof (cases "peeked lx")
  case True
  with assms show ?thesis by (auto simp: peek_token_peeked lookahead_ok_def)
next
  case False
  show ?thesis
  proof (cases rule: read_token_cases [of False lx])
    case (throws e lx2)
    with False assms(2) show ?thesis by (simp add: peek_token_unpeeked)
  next
    case (returns lx2)
    with False assms(2) read_token_ok [OF returns] show ?thesis
      by (auto simp: peek_token_unpeeked)
  qed
qed

lemma peek_token_throw:
  assumes "peek_token lx = (Inl e, lx1)"
  shows "\<not> peeked lx \<and> read_token False lx = (Inl e, lx1)"
proof (cases "peeked lx")
  case True
  with assms show ?thesis by (simp add: peek_token_peeked)
next
  case False
  show ?thesis
  proof (cases rule: read_token_cases [of False lx])
    case (throws e2 lx2)
    with False assms show ?thesis by (simp add: peek_token_unpeeked)
  next
    case (returns lx2)
    with False assms show ?thesis by (simp add: peek_token_unpeeked)
  qed
qed

lemma get_after_peek: "get_token (snd (peek_token lx)) = get_token lx"
proof (cases "peeked lx")
  case True
  then show ?thesis by (simp add: peek_token_peeked)
next
  case False
  show ?thesis
  proof (cases rule: read_token_cases [of False lx])
    case (throws e lx1)
    with False read_token_throw [OF throws] show ?thesis
      by (simp add: peek_token_unpeeked get_token_unpeeked)
  next
    case (returns lx1)
    with False read_token_ok [OF returns] show ?thesis
      by (simp add: peek_token_unpeeked get_token_unpeeked get_token_peeked)
  qed
qed

text \<open>
  C7: in every state of the lexer, when \<open>peek_token\<close> returns a token, a second
  \<open>peek_token\<close> returns the same token and changes nothing; \<open>get_token\<close> then returns that
  token again, and the cursor stands right behind it, the lookahead buffer being empty.
  When the first peek throws, so does the second, with the same exception. Peeking does not
  change the stream of tokens: \<open>get_token\<close> after a peek does what it does without the peek.
\<close>

theorem peek_twice_then_get:
  assumes "lookahead_ok lx"
  shows "(\<forall>t lx1. peek_token lx = (Inr t, lx1) \<longrightarrow>
            peek_token lx1 = (Inr t, lx1) \<and>
            get_token lx1 = (Inr t, lx1\<lparr>peeked := False\<rparr>) \<and>
            cur lx1 = str t + length_t t \<and> input lx1 = input lx)
       \<and> (\<forall>e lx1. peek_token lx = (Inl e, lx1) \<longrightarrow> peek_token lx1 = (Inl e, lx1))
       \<and> get_token (snd (peek_token lx)) = get_token lx"
proof (intro conjI allI impI)
  fix t lx1
  assume p: "peek_token lx = (Inr t, lx1)"
  note ok = peek_token_ok [OF assms p]
  show "peek_token lx1 = (Inr t, lx1)" using ok by (simp add: peek_token_peeked)
  show "get_token lx1 = (Inr t, lx1\<lparr>peeked := False\<rparr>)" using ok by (simp add: get_token_peeked)
  show "cur lx1 = str t + length_t t" using ok by simp
  show "input lx1 = input lx" using ok by simp
next
  fix e lx1
  assume p: "peek_token lx = (Inl e, lx1)"
  from peek_token_throw [OF p] have r: "read_token False lx = (Inl e, lx1)" and "\<not> peeked lx"
    by simp_all
  with read_token_throw [OF r] show "peek_token lx1 = (Inl e, lx1)"
    by (simp add: peek_token_unpeeked)
next
  show "get_token (snd (peek_token lx)) = get_token lx" by (rule get_after_peek)
qed

lemma read_token_peeked_same: "peeked (snd (read_token g lx)) = peeked lx"
  by (cases rule: read_token_cases [of g lx]) (auto dest: read_token_ok read_token_throw)

lemma lookahead_ok_new_Lexer: "lookahead_ok (new_Lexer s)"
  by (simp add: lookahead_ok_def new_Lexer_def)

lemma lookahead_ok_unpeeked: "\<not> peeked lx \<Longrightarrow> lookahead_ok lx"
  by (simp add: lookahead_ok_def)

lemma get_token_unpeeks: "\<not> peeked (snd (get_token lx))"
proof (cases "peeked lx")
  case True
  then show ?thesis by (simp add: get_token_peeked)
next
  case False
  then show ?thesis
    using read_token_peeked_same [of False lx]
    by (cases rule: read_token_cases [of False lx]) (simp_all add: get_token_unpeeked)
qed

lemma lookahead_ok_peek_token:
  assumes "lookahead_ok lx"
  shows "lookahead_ok (snd (peek_token lx))"
proof (cases "peek_token lx")
  case (Pair r lx1)
  show ?thesis
  proof (cases r)
    case (Inl e)
    with Pair peek_token_throw [of lx e lx1] read_token_throw [of False lx e lx1]
    show ?thesis by (simp add: lookahead_ok_def)
  next
    case (Inr t)
    with Pair peek_token_ok [OF assms, of t lx1] show ?thesis by (simp add: lookahead_ok_def)
  qed
qed

lemma lookahead_ok_get_token: "lookahead_ok (snd (get_token lx))"
  by (rule lookahead_ok_unpeeked) (rule get_token_unpeeks)

lemma lookahead_ok_go_back: "lookahead_ok (go_back token lx)"
  by (simp add: lookahead_ok_def go_back_def)

lemma lookahead_ok_get_glob_token: "lookahead_ok (snd (get_glob_token lx))"
proof -
  define lx0 where "lx0 = (if peeked lx then lx\<lparr>cur := str (tok lx), peeked := False\<rparr> else lx)"
  have "\<not> peeked lx0" by (simp add: lx0_def)
  then have "\<not> peeked (snd (read_token True lx0))" by (simp add: read_token_peeked_same)
  moreover have "snd (get_glob_token lx) = snd (read_token True lx0)"
    unfolding get_glob_token_def Let_def lx0_def [symmetric]
    by (cases rule: read_token_cases [of True lx0]) simp_all
  ultimately show ?thesis by (simp add: lookahead_ok_unpeeked)
qed

lemma lookahead_ok_get_word_token: "lookahead_ok (snd (get_word_token lx))"
proof (cases "get_token lx")
  case (Pair r lx1)
  with get_token_unpeeks [of lx] have "\<not> peeked lx1" by simp
  with Pair show ?thesis
    by (cases r) (simp_all add: get_word_token_def Let_def lookahead_ok_def)
qed

lemma lookahead_ok_get_rest_of_cmd: "lookahead_ok (snd (get_rest_of_cmd lx))"
proof (cases "get_token lx")
  case (Pair r lx1)
  with get_token_unpeeks [of lx] have "\<not> peeked lx1" by simp
  with Pair show ?thesis
    by (cases r) (simp_all add: get_rest_of_cmd_def Let_def lookahead_ok_def)
qed

lemma lookahead_ok_get_rest_of_line: "lookahead_ok (snd (get_rest_of_line lx))"
  by (simp add: get_rest_of_line_def Let_def lookahead_ok_def)

lemma lookahead_ok_after_peek:
  assumes "lookahead_ok lx" and "peek_token lx = (r, lx1)"
  shows "lookahead_ok lx1" and "lookahead_ok (snd (get_token lx1))"
  using lookahead_ok_peek_token [OF assms(1)] assms(2) lookahead_ok_get_token by simp_all

lemma lookahead_ok_get_expected_token:
  assumes "lookahead_ok lx"
  shows "lookahead_ok (snd (get_expected_token tt lx))"
proof (cases "peek_token lx")
  case (Pair r lx1)
  note ok = lookahead_ok_after_peek [OF assms Pair]
  from Pair ok show ?thesis
    by (cases r) (simp_all add: get_expected_token_def Let_def)
qed

lemma lookahead_ok_get_expected_token_raw:
  assumes "lookahead_ok lx"
  shows "lookahead_ok (snd (get_expected_token_raw raw lx))"
proof (cases "peek_token lx")
  case (Pair r lx1)
  note ok = lookahead_ok_after_peek [OF assms Pair]
  from Pair ok show ?thesis
    by (cases r) (simp_all add: get_expected_token_raw_def Let_def)
qed

lemma lookahead_ok_get_expected_token2:
  assumes "lookahead_ok lx"
  shows "lookahead_ok (snd (get_expected_token2 tt1 tt2 lx))"
proof (cases "peek_token lx")
  case (Pair r lx1)
  note ok = lookahead_ok_after_peek [OF assms Pair]
  from Pair ok show ?thesis
    by (cases r) (simp_all add: get_expected_token2_def Let_def)
qed

lemma lookahead_ok_get_expected_token_or_raw:
  assumes "lookahead_ok lx"
  shows "lookahead_ok (snd (get_expected_token_or_raw tt raw lx))"
proof (cases "peek_token lx")
  case (Pair r lx1)
  note ok = lookahead_ok_after_peek [OF assms Pair]
  from Pair ok show ?thesis
    by (cases r) (simp_all add: get_expected_token_or_raw_def Let_def)
qed

lemma lookahead_ok_get_expected_token_raw2:
  assumes "lookahead_ok lx"
  shows "lookahead_ok (snd (get_expected_token_raw2 raw1 raw2 lx))"
proof (cases "peek_token lx")
  case (Pair r lx1)
  note ok = lookahead_ok_after_peek [OF assms Pair]
  from Pair ok show ?thesis
    by (cases r) (simp_all add: get_expected_token_raw2_def Let_def)
qed

lemma lookahead_ok_get_token_if:
  assumes "lookahead_ok lx"
  shows "lookahead_ok (snd (get_token_if tt lx))"
proof (cases "peek_token lx")
  case (Pair r lx1)
  note ok = lookahead_ok_after_peek [OF assms Pair]
  from Pair ok show ?thesis
    by (cases r) (simp_all add: get_token_if_def Let_def)
qed

lemma read_token_eval:
  assumes "scan_while isspace (input lx) (cur lx) = start"
    and "scan_token g (input lx) start = (Inr ptr, ty, v)"
  shows "read_token g lx =
     (Inr (), lx\<lparr>tok := (assigned ty v ((tok lx)\<lparr>str := start\<rparr>))\<lparr>length_t := ptr - start\<rparr>,
                 cur := ptr\<rparr>)"
  using assms by (simp add: read_token_def)

lemma read_token_eval_throw:
  assumes "scan_while isspace (input lx) (cur lx) = start"
    and "scan_token g (input lx) start = (Inl e, ty, v)"
  shows "read_token g lx = (Inl e, lx\<lparr>tok := assigned ty v ((tok lx)\<lparr>str := start\<rparr>)\<rparr>)"
  using assms by (simp add: read_token_def)

lemmas scan_eval =
  scan_token_def scan_while_def char_at_def isspace_def isdigit_def isalpha_def isupper_def
  islower_def isalnum_def single_char_token_def name_char_def strchr_def strtod_end_def
  float_end_def isxdigit_def substring_def Let_def

theorem peek_twice_then_get_witness:
  "lookahead_ok (new_Lexer ''$a = 1.5'') \<and>
   peek_token (new_Lexer ''$a = 1.5'') =
     (Inr \<lparr>str = 0, type = kTokenVarname, length_t = 2, value_t = Unset\<rparr>,
      \<lparr>input = ''$a = 1.5'', cur = 2, peeked = True,
       tok = \<lparr>str = 0, type = kTokenVarname, length_t = 2, value_t = Unset\<rparr>\<rparr>) \<and>
   peek_token \<lparr>input = ''$a = 1.5'', cur = 2, peeked = True,
       tok = \<lparr>str = 0, type = kTokenVarname, length_t = 2, value_t = Unset\<rparr>\<rparr> =
     (Inr \<lparr>str = 0, type = kTokenVarname, length_t = 2, value_t = Unset\<rparr>,
      \<lparr>input = ''$a = 1.5'', cur = 2, peeked = True,
       tok = \<lparr>str = 0, type = kTokenVarname, length_t = 2, value_t = Unset\<rparr>\<rparr>) \<and>
   get_token \<lparr>input = ''$a = 1.5'', cur = 2, peeked = True,
       tok = \<lparr>str = 0, type = kTokenVarname, length_t = 2, value_t = Unset\<rparr>\<rparr> =
     (Inr \<lparr>str = 0, type = kTokenVarname, length_t = 2, value_t = Unset\<rparr>,
      \<lparr>input = ''$a = 1.5'', cur = 2, peeked = False,
       tok = \<lparr>str = 0, type = kTokenVarname, length_t = 2, value_t = Unset\<rparr>\<rparr>) \<and>
   peek_token \<lparr>input = ''x $ '', cur = 1, peeked = False,
       tok = \<lparr>str = 0, type = kTokenLname, length_t = 1, value_t = Unset\<rparr>\<rparr> =
     (Inl (SyntaxError (''unexpected character after '' @ [CHR 0x27, CHR ''$'', CHR 0x27])),
      \<lparr>input = ''x $ '', cur = 1, peeked = False,
       tok = \<lparr>str = 2, type = kTokenLname, length_t = 1, value_t = Unset\<rparr>\<rparr>) \<and>
   peek_token \<lparr>input = ''x $ '', cur = 1, peeked = False,
       tok = \<lparr>str = 2, type = kTokenLname, length_t = 1, value_t = Unset\<rparr>\<rparr> =
     (Inl (SyntaxError (''unexpected character after '' @ [CHR 0x27, CHR ''$'', CHR 0x27])),
      \<lparr>input = ''x $ '', cur = 1, peeked = False,
       tok = \<lparr>str = 2, type = kTokenLname, length_t = 1, value_t = Unset\<rparr>\<rparr>)"
proof -
  have ok: "lookahead_ok (new_Lexer ''$a = 1.5'')" by (rule lookahead_ok_new_Lexer)
  have w: "scan_while isspace ''$a = 1.5'' 0 = 0" "scan_while isspace ''x $ '' (Suc 0) = 2"
    by (simp_all add: scan_while_def isspace_def)
  have t: "scan_token False ''$a = 1.5'' 0 = (Inr 2, Some kTokenVarname, None)"
    "scan_token False ''x $ '' 2 =
      (Inl (SyntaxError (''unexpected character after '' @ [CHR 0x27, CHR ''$'', CHR 0x27])),
       None, None)"
    by (simp_all add: scan_eval)
  have p: "peek_token (new_Lexer ''$a = 1.5'') =
     (Inr \<lparr>str = 0, type = kTokenVarname, length_t = 2, value_t = Unset\<rparr>,
      \<lparr>input = ''$a = 1.5'', cur = 2, peeked = True,
       tok = \<lparr>str = 0, type = kTokenVarname, length_t = 2, value_t = Unset\<rparr>\<rparr>)"
    by (simp add: peek_token_def read_token_def new_Lexer_def w t assigned_def)
  from peek_twice_then_get [OF ok] p
  have a: "peek_token \<lparr>input = ''$a = 1.5'', cur = 2, peeked = True,
       tok = \<lparr>str = 0, type = kTokenVarname, length_t = 2, value_t = Unset\<rparr>\<rparr> =
     (Inr \<lparr>str = 0, type = kTokenVarname, length_t = 2, value_t = Unset\<rparr>,
      \<lparr>input = ''$a = 1.5'', cur = 2, peeked = True,
       tok = \<lparr>str = 0, type = kTokenVarname, length_t = 2, value_t = Unset\<rparr>\<rparr>) \<and>
    get_token \<lparr>input = ''$a = 1.5'', cur = 2, peeked = True,
       tok = \<lparr>str = 0, type = kTokenVarname, length_t = 2, value_t = Unset\<rparr>\<rparr> =
     (Inr \<lparr>str = 0, type = kTokenVarname, length_t = 2, value_t = Unset\<rparr>,
      \<lparr>input = ''$a = 1.5'', cur = 2, peeked = True,
       tok = \<lparr>str = 0, type = kTokenVarname, length_t = 2, value_t = Unset\<rparr>\<rparr>\<lparr>peeked := False\<rparr>)"
    by blast
  have ok2: "lookahead_ok \<lparr>input = ''x $ '', cur = 1, peeked = False,
       tok = \<lparr>str = 0, type = kTokenLname, length_t = 1, value_t = Unset\<rparr>\<rparr>"
    by (simp add: lookahead_ok_def)
  have p2: "peek_token \<lparr>input = ''x $ '', cur = 1, peeked = False,
       tok = \<lparr>str = 0, type = kTokenLname, length_t = 1, value_t = Unset\<rparr>\<rparr> =
     (Inl (SyntaxError (''unexpected character after '' @ [CHR 0x27, CHR ''$'', CHR 0x27])),
      \<lparr>input = ''x $ '', cur = 1, peeked = False,
       tok = \<lparr>str = 2, type = kTokenLname, length_t = 1, value_t = Unset\<rparr>\<rparr>)"
    by (simp add: peek_token_def read_token_def w t assigned_def)
  from peek_twice_then_get [OF ok2] p2
  have b: "peek_token \<lparr>input = ''x $ '', cur = 1, peeked = False,
       tok = \<lparr>str = 2, type = kTokenLname, length_t = 1, value_t = Unset\<rparr>\<rparr> =
     (Inl (SyntaxError (''unexpected character after '' @ [CHR 0x27, CHR ''$'', CHR 0x27])),
      \<lparr>input = ''x $ '', cur = 1, peeked = False,
       tok = \<lparr>str = 2, type = kTokenLname, length_t = 1, value_t = Unset\<rparr>\<rparr>)"
    by blast
  from ok p a p2 b show ?thesis by simp
qed

subsection \<open>Expected tokens\<close>

lemma offset_int_small: "n < 2 ^ 31 \<Longrightarrow> offset_int n = int n"
  unfolding offset_int_def
  by (simp add: signed_of_nat signed_take_bit_int_eq_self)

lemma throw_syntax_error_message:
  "throw_syntax_error lx msg =
    SyntaxError (''at '' @ S (offset_int (cur lx)) @
      (if 10 \<le> offset_int (cur lx)
       then '', near `'' @ substring (input lx) (cur lx - 10) 10 @ [CHR 0x27]
       else []) @ '': '' @ msg)"
  by (simp add: throw_syntax_error_def Let_def)

lemma throw_syntax_error_small:
  assumes "cur lx < 2 ^ 31"
  shows "throw_syntax_error lx msg =
    SyntaxError (''at '' @ S (int (cur lx)) @
      (if 10 \<le> cur lx then '', near `'' @ substring (input lx) (cur lx - 10) 10 @ [CHR 0x27]
       else []) @ '': '' @ msg)"
  using offset_int_small [OF assms] by (simp add: throw_syntax_error_def Let_def)

lemma get_expected_token_mismatch:
  assumes "peek_token lx = (Inr t, lx1)" and "type t \<noteq> tt"
  shows "get_expected_token tt lx =
    (Inl (throw_syntax_error lx1
       (''expected '' @ tokentype2str tt @
        (if type t = kTokenNop then [] else '' instead of '' @ tokentype2str (type t)))), lx1)"
  using assms by (simp add: get_expected_token_def Let_def)

lemma get_expected_token2_mismatch:
  assumes "peek_token lx = (Inr t, lx1)" and "type t \<noteq> tt1" and "type t \<noteq> tt2"
  shows "get_expected_token2 tt1 tt2 lx =
    (Inl (throw_syntax_error lx1
       (''expected '' @ tokentype2str tt1 @ '' or '' @ tokentype2str tt2 @
        (if type t = kTokenNop then [] else '' instead of '' @ tokentype2str (type t)))), lx1)"
  using assms by (simp add: get_expected_token2_def Let_def)

lemma get_expected_token_raw_mismatch:
  assumes "peek_token lx = (Inr t, lx1)" and "as_string (input lx1) t \<noteq> raw"
  shows "get_expected_token_raw raw lx =
    (Inl (throw_syntax_error lx1
       (''expected `'' @ raw @ [CHR 0x27] @
        (if type t = kTokenNop then []
         else '' instead of `'' @ as_string (input lx1) t @ [CHR 0x27]))), lx1)"
  using assms by (simp add: get_expected_token_raw_def Let_def)

lemma get_expected_token_or_raw_mismatch:
  assumes "peek_token lx = (Inr t, lx1)" and "type t \<noteq> tt"
    and "as_string (input lx1) t \<noteq> raw"
  shows "get_expected_token_or_raw tt raw lx =
    (Inl (throw_syntax_error lx1
       (''expected '' @ tokentype2str tt @ '' or `'' @ raw @ [CHR 0x27] @
        (if type t = kTokenNop then []
         else '' instead of `'' @ as_string (input lx1) t @ [CHR 0x27]))), lx1)"
  using assms by (simp add: get_expected_token_or_raw_def Let_def)

lemma get_expected_token_raw2_mismatch:
  assumes "peek_token lx = (Inr t, lx1)" and "as_string (input lx1) t \<noteq> raw1"
    and "as_string (input lx1) t \<noteq> raw2"
  shows "get_expected_token_raw2 raw1 raw2 lx =
    (Inl (throw_syntax_error lx1
       (''expected `'' @ raw1 @ [CHR 0x27] @ '' or `'' @ raw2 @ [CHR 0x27] @
        (if type t = kTokenNop then []
         else '' instead of `'' @ as_string (input lx1) t @ [CHR 0x27]))), lx1)"
  using assms by (simp add: get_expected_token_raw2_def Let_def)

text \<open>
  C3, amended: when a call that expects a token (by kind, by text, or one of two) finds
  another one, it throws the syntax error that \<open>throw_syntax_error\<close> makes of \<open>expected <X>\<close>
  followed, unless the actual token is the nil token, by \<open> instead of <Y>\<close>. That message is
  \<open>at <offset>\<close>, then, only if the offset is at least 10, \<open>, near `<context>'\<close> with
  exactly the 10 characters of the input before the cursor (opened by a backquote), then a
  colon, a blank and the text given. The offset is that of the cursor, which stands behind
  the token found (for inputs shorter than \<open>2^31\<close>, beyond which the \<open>int\<close> would wrap).
  With fewer than 10 characters before the cursor the message has no context.
\<close>

theorem expected_token_mismatch_message:
  assumes "lookahead_ok lx" and "peek_token lx = (Inr t, lx1)" and "cur lx1 < 2 ^ 31"
  shows "(\<forall>msg. throw_syntax_error lx1 msg =
            SyntaxError (''at '' @ S (int (cur lx1)) @
              (if 10 \<le> cur lx1
               then '', near `'' @ substring (input lx) (cur lx1 - 10) 10 @ [CHR 0x27]
               else []) @ '': '' @ msg))
    \<and> cur lx1 = str t + length_t t
    \<and> (type t \<noteq> tt \<longrightarrow>
         get_expected_token tt lx =
           (Inl (throw_syntax_error lx1
              (''expected '' @ tokentype2str tt @
               (if type t = kTokenNop then []
                else '' instead of '' @ tokentype2str (type t)))), lx1))
    \<and> (type t \<noteq> tt \<and> type t \<noteq> tt2 \<longrightarrow>
         get_expected_token2 tt tt2 lx =
           (Inl (throw_syntax_error lx1
              (''expected '' @ tokentype2str tt @ '' or '' @ tokentype2str tt2 @
               (if type t = kTokenNop then []
                else '' instead of '' @ tokentype2str (type t)))), lx1))
    \<and> (as_string (input lx) t \<noteq> raw \<longrightarrow>
         get_expected_token_raw raw lx =
           (Inl (throw_syntax_error lx1
              (''expected `'' @ raw @ [CHR 0x27] @
               (if type t = kTokenNop then []
                else '' instead of `'' @ as_string (input lx) t @ [CHR 0x27]))), lx1))
    \<and> (type t \<noteq> tt \<and> as_string (input lx) t \<noteq> raw \<longrightarrow>
         get_expected_token_or_raw tt raw lx =
           (Inl (throw_syntax_error lx1
              (''expected '' @ tokentype2str tt @ '' or `'' @ raw @ [CHR 0x27] @
               (if type t = kTokenNop then []
                else '' instead of `'' @ as_string (input lx) t @ [CHR 0x27]))), lx1))
    \<and> (as_string (input lx) t \<noteq> raw \<and> as_string (input lx) t \<noteq> raw2 \<longrightarrow>
         get_expected_token_raw2 raw raw2 lx =
           (Inl (throw_syntax_error lx1
              (''expected `'' @ raw @ [CHR 0x27] @ '' or `'' @ raw2 @ [CHR 0x27] @
               (if type t = kTokenNop then []
                else '' instead of `'' @ as_string (input lx) t @ [CHR 0x27]))), lx1))"
proof -
  from peek_token_ok [OF assms(1,2)]
  have inp: "input lx1 = input lx" and c: "cur lx1 = str t + length_t t" by simp_all
  note p = assms(2)
  show ?thesis
  proof (intro conjI allI impI)
    fix msg
    show "throw_syntax_error lx1 msg =
            SyntaxError (''at '' @ S (int (cur lx1)) @
              (if 10 \<le> cur lx1
               then '', near `'' @ substring (input lx) (cur lx1 - 10) 10 @ [CHR 0x27]
               else []) @ '': '' @ msg)"
      using throw_syntax_error_small [OF assms(3), of msg] by (simp add: inp)
  next
    show "cur lx1 = str t + length_t t" by (rule c)
  next
    assume "type t \<noteq> tt"
    then show "get_expected_token tt lx =
           (Inl (throw_syntax_error lx1
              (''expected '' @ tokentype2str tt @
               (if type t = kTokenNop then []
                else '' instead of '' @ tokentype2str (type t)))), lx1)"
      by (rule get_expected_token_mismatch [OF p])
  next
    assume "type t \<noteq> tt \<and> type t \<noteq> tt2"
    then show "get_expected_token2 tt tt2 lx =
           (Inl (throw_syntax_error lx1
              (''expected '' @ tokentype2str tt @ '' or '' @ tokentype2str tt2 @
               (if type t = kTokenNop then []
                else '' instead of '' @ tokentype2str (type t)))), lx1)"
      using get_expected_token2_mismatch [OF p] by blast
  next
    assume "as_string (input lx) t \<noteq> raw"
    then show "get_expected_token_raw raw lx =
           (Inl (throw_syntax_error lx1
              (''expected `'' @ raw @ [CHR 0x27] @
               (if type t = kTokenNop then []
                else '' instead of `'' @ as_string (input lx) t @ [CHR 0x27]))), lx1)"
      using get_expected_token_raw_mismatch [OF p, of raw] by (simp add: inp)
  next
    assume "type t \<noteq> tt \<and> as_string (input lx) t \<noteq> raw"
    then show "get_expected_token_or_raw tt raw lx =
           (Inl (throw_syntax_error lx1
              (''expected '' @ tokentype2str tt @ '' or `'' @ raw @ [CHR 0x27] @
               (if type t = kTokenNop then []
                else '' instead of `'' @ as_string (input lx) t @ [CHR 0x27]))), lx1)"
      using get_expected_token_or_raw_mismatch [OF p, of tt raw] by (simp add: inp)
  next
    assume "as_string (input lx) t \<noteq> raw \<and> as_string (input lx) t \<noteq> raw2"
    then show "get_expected_token_raw2 raw raw2 lx =
           (Inl (throw_syntax_error lx1
              (''expected `'' @ raw @ [CHR 0x27] @ '' or `'' @ raw2 @ [CHR 0x27] @
               (if type t = kTokenNop then []
                else '' instead of `'' @ as_string (input lx) t @ [CHR 0x27]))), lx1)"
      using get_expected_token_raw2_mismatch [OF p, of raw raw2] by (simp add: inp)
  qed
qed

lemma token_simps:
  "scan_while isspace ''x'' 0 = 0"
  "scan_token False ''x'' 0 = (Inr 1, Some kTokenLname, None)"
  "scan_while isspace ''$a = 1.5 + x'' 10 = 11"
  "scan_token False ''$a = 1.5 + x'' 11 = (Inr 12, Some kTokenLname, None)"
  "scan_while isspace ''  # end'' 0 = 2"
  "scan_token False ''  # end'' 2 = (Inr 2, Some kTokenNop, None)"
  by (simp_all add: scan_eval)

text \<open>
  C3, as stated: the message of a mismatch always shows left context, also when fewer than
  ten characters precede the cursor. On the input \<open>x\<close>, expecting a number, the cursor is at
  offset 1 and the message has the offset and no context at all.
\<close>

theorem short_input_no_context_counterexample:
  "get_expected_token kTokenNumber (new_Lexer ''x'') =
     (Inl (SyntaxError ''at 1: expected number instead of lower_case_name''),
      \<lparr>input = ''x'', cur = 1, peeked = True,
       tok = \<lparr>str = 0, type = kTokenLname, length_t = 1, value_t = Unset\<rparr>\<rparr>)"
proof -
  have p: "peek_token (new_Lexer ''x'') =
      (Inr \<lparr>str = 0, type = kTokenLname, length_t = 1, value_t = Unset\<rparr>,
       \<lparr>input = ''x'', cur = 1, peeked = True,
        tok = \<lparr>str = 0, type = kTokenLname, length_t = 1, value_t = Unset\<rparr>\<rparr>)"
    by (simp add: peek_token_def read_token_def new_Lexer_def token_simps assigned_def)
  show ?thesis
    by (simp add: get_expected_token_def p throw_syntax_error_def offset_int_def S_def
        decimal.simps)
qed

theorem expected_token_mismatch_message_witness:
  "get_expected_token kTokenNumber
     \<lparr>input = ''$a = 1.5 + x'', cur = 10, peeked = False,
      tok = \<lparr>str = 9, type = kTokenPlus, length_t = 1, value_t = ValueD ''1.5''\<rparr>\<rparr> =
   (Inl (SyntaxError
      (''at 12, near ` = 1.5 + x'' @ [CHR 0x27] @
       '': expected number instead of lower_case_name'')),
    \<lparr>input = ''$a = 1.5 + x'', cur = 12, peeked = True,
     tok = \<lparr>str = 11, type = kTokenLname, length_t = 1, value_t = ValueD ''1.5''\<rparr>\<rparr>)
   \<and> fst (get_expected_token2 kTokenNumber kTokenDataset
     \<lparr>input = ''$a = 1.5 + x'', cur = 10, peeked = False,
      tok = \<lparr>str = 9, type = kTokenPlus, length_t = 1, value_t = ValueD ''1.5''\<rparr>\<rparr>) =
    Inl (SyntaxError
      (''at 12, near ` = 1.5 + x'' @ [CHR 0x27] @
       '': expected number or @dataset instead of lower_case_name''))
   \<and> fst (get_expected_token_raw ''=''
     \<lparr>input = ''$a = 1.5 + x'', cur = 10, peeked = False,
      tok = \<lparr>str = 9, type = kTokenPlus, length_t = 1, value_t = ValueD ''1.5''\<rparr>\<rparr>) =
    Inl (SyntaxError
      (''at 12, near ` = 1.5 + x'' @ [CHR 0x27] @
       '': expected `='' @ [CHR 0x27] @ '' instead of `x'' @ [CHR 0x27]))
   \<and> fst (get_expected_token_or_raw kTokenNumber ''=''
     \<lparr>input = ''$a = 1.5 + x'', cur = 10, peeked = False,
      tok = \<lparr>str = 9, type = kTokenPlus, length_t = 1, value_t = ValueD ''1.5''\<rparr>\<rparr>) =
    Inl (SyntaxError
      (''at 12, near ` = 1.5 + x'' @ [CHR 0x27] @
       '': expected number or `='' @ [CHR 0x27] @ '' instead of `x'' @ [CHR 0x27]))
   \<and> fst (get_expected_token_raw2 ''='' ''+''
     \<lparr>input = ''$a = 1.5 + x'', cur = 10, peeked = False,
      tok = \<lparr>str = 9, type = kTokenPlus, length_t = 1, value_t = ValueD ''1.5''\<rparr>\<rparr>) =
    Inl (SyntaxError
      (''at 12, near ` = 1.5 + x'' @ [CHR 0x27] @
       '': expected `='' @ [CHR 0x27] @ '' or `+'' @ [CHR 0x27] @
       '' instead of `x'' @ [CHR 0x27]))"
proof -
  define lx where "lx =
     \<lparr>input = ''$a = 1.5 + x'', cur = 10, peeked = False,
      tok = \<lparr>str = 9, type = kTokenPlus, length_t = 1, value_t = ValueD ''1.5''\<rparr>\<rparr>"
  define t where "t = \<lparr>str = 11, type = kTokenLname, length_t = 1, value_t = ValueD ''1.5''\<rparr>"
  define lx1 where "lx1 = \<lparr>input = ''$a = 1.5 + x'', cur = 12, peeked = True, tok = t\<rparr>"
  have ok: "lookahead_ok lx" by (simp add: lookahead_ok_def lx_def)
  have p: "peek_token lx = (Inr t, lx1)"
    by (simp add: peek_token_def read_token_def lx_def t_def lx1_def token_simps assigned_def)
  have small: "cur lx1 < 2 ^ 31" by (simp add: lx1_def)
  have ne: "type t \<noteq> kTokenNumber" "type t \<noteq> kTokenDataset" by (simp_all add: t_def)
  have s: "as_string (input lx) t = ''x''"
    by (simp add: as_string_def substring_def lx_def t_def)
  have m: "throw_syntax_error lx1 msg =
      SyntaxError (''at 12, near ` = 1.5 + x'' @ [CHR 0x27] @ '': '' @ msg)" for msg
    using expected_token_mismatch_message [OF ok p small]
    by (simp add: lx_def lx1_def substring_def S_def decimal.simps)
  from expected_token_mismatch_message
    [OF ok p small, of kTokenNumber kTokenDataset "''=''" "''+''"] ne s
  have "get_expected_token kTokenNumber lx =
      (Inl (throw_syntax_error lx1
        (''expected number instead of lower_case_name'')), lx1)"
    "get_expected_token2 kTokenNumber kTokenDataset lx =
      (Inl (throw_syntax_error lx1
        (''expected number or @dataset instead of lower_case_name'')), lx1)"
    "get_expected_token_raw ''='' lx =
      (Inl (throw_syntax_error lx1
        (''expected `'' @ ''='' @ [CHR 0x27] @ '' instead of `'' @ ''x'' @ [CHR 0x27])), lx1)"
    "get_expected_token_or_raw kTokenNumber ''='' lx =
      (Inl (throw_syntax_error lx1
        (''expected number or `'' @ ''='' @ [CHR 0x27] @ '' instead of `'' @ ''x'' @
         [CHR 0x27])), lx1)"
    "get_expected_token_raw2 ''='' ''+'' lx =
      (Inl (throw_syntax_error lx1
        (''expected `'' @ ''='' @ [CHR 0x27] @ '' or `'' @ ''+'' @ [CHR 0x27] @
         '' instead of `'' @ ''x'' @ [CHR 0x27])), lx1)"
    by (simp_all add: t_def)
  then show ?thesis
    unfolding m by (simp add: lx_def lx1_def t_def)
qed

text \<open>
  C8: when the next token is the nil token (end of input or a comment), a mismatching call
  that expects a token, by kind or by text, throws a syntax error whose message, after the
  position, says only what was expected; it has no \<open>instead of\<close> part.
\<close>

theorem expected_token_at_nil:
  assumes "peek_token lx = (Inr t, lx1)" and "type t = kTokenNop"
  shows "(\<forall>msg. throw_syntax_error lx1 msg =
            SyntaxError (''at '' @ S (offset_int (cur lx1)) @
              (if 10 \<le> offset_int (cur lx1)
               then '', near `'' @ substring (input lx1) (cur lx1 - 10) 10 @ [CHR 0x27]
               else []) @ '': '' @ msg))
    \<and> (tt \<noteq> kTokenNop \<longrightarrow>
         get_expected_token tt lx =
           (Inl (throw_syntax_error lx1 (''expected '' @ tokentype2str tt)), lx1))
    \<and> (tt \<noteq> kTokenNop \<and> tt2 \<noteq> kTokenNop \<longrightarrow>
         get_expected_token2 tt tt2 lx =
           (Inl (throw_syntax_error lx1
              (''expected '' @ tokentype2str tt @ '' or '' @ tokentype2str tt2)), lx1))
    \<and> (as_string (input lx1) t \<noteq> raw \<longrightarrow>
         get_expected_token_raw raw lx =
           (Inl (throw_syntax_error lx1 (''expected `'' @ raw @ [CHR 0x27])), lx1))
    \<and> (tt \<noteq> kTokenNop \<and> as_string (input lx1) t \<noteq> raw \<longrightarrow>
         get_expected_token_or_raw tt raw lx =
           (Inl (throw_syntax_error lx1
              (''expected '' @ tokentype2str tt @ '' or `'' @ raw @ [CHR 0x27])), lx1))
    \<and> (as_string (input lx1) t \<noteq> raw \<and> as_string (input lx1) t \<noteq> raw2 \<longrightarrow>
         get_expected_token_raw2 raw raw2 lx =
           (Inl (throw_syntax_error lx1
              (''expected `'' @ raw @ [CHR 0x27] @ '' or `'' @ raw2 @ [CHR 0x27])), lx1))"
proof -
  note p = assms(1)
  show ?thesis
  proof (intro conjI allI impI)
    fix msg
    show "throw_syntax_error lx1 msg =
            SyntaxError (''at '' @ S (offset_int (cur lx1)) @
              (if 10 \<le> offset_int (cur lx1)
               then '', near `'' @ substring (input lx1) (cur lx1 - 10) 10 @ [CHR 0x27]
               else []) @ '': '' @ msg)"
      by (rule throw_syntax_error_message)
  next
    assume "tt \<noteq> kTokenNop"
    then show "get_expected_token tt lx =
           (Inl (throw_syntax_error lx1 (''expected '' @ tokentype2str tt)), lx1)"
      using get_expected_token_mismatch [OF p, of tt] assms(2) by auto
  next
    assume "tt \<noteq> kTokenNop \<and> tt2 \<noteq> kTokenNop"
    then show "get_expected_token2 tt tt2 lx =
           (Inl (throw_syntax_error lx1
              (''expected '' @ tokentype2str tt @ '' or '' @ tokentype2str tt2)), lx1)"
      using get_expected_token2_mismatch [OF p, of tt tt2] assms(2) by auto
  next
    assume "as_string (input lx1) t \<noteq> raw"
    then show "get_expected_token_raw raw lx =
           (Inl (throw_syntax_error lx1 (''expected `'' @ raw @ [CHR 0x27])), lx1)"
      using get_expected_token_raw_mismatch [OF p, of raw] assms(2) by auto
  next
    assume "tt \<noteq> kTokenNop \<and> as_string (input lx1) t \<noteq> raw"
    then show "get_expected_token_or_raw tt raw lx =
           (Inl (throw_syntax_error lx1
              (''expected '' @ tokentype2str tt @ '' or `'' @ raw @ [CHR 0x27])), lx1)"
      using get_expected_token_or_raw_mismatch [OF p, of tt raw] assms(2) by auto
  next
    assume "as_string (input lx1) t \<noteq> raw \<and> as_string (input lx1) t \<noteq> raw2"
    then show "get_expected_token_raw2 raw raw2 lx =
           (Inl (throw_syntax_error lx1
              (''expected `'' @ raw @ [CHR 0x27] @ '' or `'' @ raw2 @ [CHR 0x27])), lx1)"
      using get_expected_token_raw2_mismatch [OF p, of raw raw2] assms(2) by auto
  qed
qed

theorem expected_token_at_nil_witness:
  "fst (get_expected_token kTokenNumber (new_Lexer ''  # end'')) =
     Inl (SyntaxError ''at 2: expected number'')
   \<and> fst (get_expected_token2 kTokenNumber kTokenDataset (new_Lexer ''  # end'')) =
     Inl (SyntaxError ''at 2: expected number or @dataset'')
   \<and> fst (get_expected_token_raw ''='' (new_Lexer ''  # end'')) =
     Inl (SyntaxError (''at 2: expected `='' @ [CHR 0x27]))
   \<and> fst (get_expected_token_or_raw kTokenNumber ''='' (new_Lexer ''  # end'')) =
     Inl (SyntaxError (''at 2: expected number or `='' @ [CHR 0x27]))
   \<and> fst (get_expected_token_raw2 ''='' ''+'' (new_Lexer ''  # end'')) =
     Inl (SyntaxError (''at 2: expected `='' @ [CHR 0x27] @ '' or `+'' @ [CHR 0x27]))"
proof -
  define t where "t = \<lparr>str = 2, type = kTokenNop, length_t = 0, value_t = Unset\<rparr>"
  define lx1 where "lx1 = \<lparr>input = ''  # end'', cur = 2, peeked = True, tok = t\<rparr>"
  have p: "peek_token (new_Lexer ''  # end'') = (Inr t, lx1)"
    by (simp add: peek_token_def read_token_def new_Lexer_def t_def lx1_def token_simps
        assigned_def)
  have nop: "type t = kTokenNop" by (simp add: t_def)
  have s: "as_string (input lx1) t = []"
    by (simp add: as_string_def substring_def lx1_def t_def)
  have m: "throw_syntax_error lx1 msg = SyntaxError (''at 2: '' @ msg)" for msg
    using expected_token_at_nil [OF p nop]
    by (simp add: lx1_def offset_int_def S_def decimal.simps)
  from expected_token_at_nil [OF p nop, of kTokenNumber kTokenDataset "''=''" "''+''"] s
  have "get_expected_token kTokenNumber (new_Lexer ''  # end'') =
      (Inl (throw_syntax_error lx1 ''expected number''), lx1)"
    "get_expected_token2 kTokenNumber kTokenDataset (new_Lexer ''  # end'') =
      (Inl (throw_syntax_error lx1 ''expected number or @dataset''), lx1)"
    "get_expected_token_raw ''='' (new_Lexer ''  # end'') =
      (Inl (throw_syntax_error lx1 (''expected `'' @ ''='' @ [CHR 0x27])), lx1)"
    "get_expected_token_or_raw kTokenNumber ''='' (new_Lexer ''  # end'') =
      (Inl (throw_syntax_error lx1 (''expected number or `'' @ ''='' @ [CHR 0x27])), lx1)"
    "get_expected_token_raw2 ''='' ''+'' (new_Lexer ''  # end'') =
      (Inl (throw_syntax_error lx1
         (''expected `'' @ ''='' @ [CHR 0x27] @ '' or `'' @ ''+'' @ [CHR 0x27])), lx1)"
    by simp_all
  then show ?thesis unfolding m by simp
qed

subsection \<open>Operators and lexical errors\<close>

lemma isspace_not_NUL: "isspace c \<Longrightarrow> c \<noteq> CHR 0x00"
  by (auto simp: isspace_def)

lemma scan_while_prefix:
  assumes "\<forall>c \<in> set ws. c \<noteq> CHR 0x00 \<and> P c" and "\<not> P c"
    and "s = pre @ ws @ c # rest"
  shows "scan_while P s (length pre) = length pre + length ws"
  using assms by (simp add: scan_while_def takeWhile_tail)

lemma char_at_append: "char_at (pre @ rest) (length pre + n) = char_at rest n"
  by (simp add: char_at_def nth_append)

lemma char_at_append2: "char_at (pre @ ws @ rest) (length pre + length ws + n) = char_at rest n"
  using char_at_append [of "pre @ ws" rest n] by simp

lemma char_at_Cons [simp]: "char_at (c # rest) 0 = c" "char_at (c # rest) (Suc n) = char_at rest n"
  by (simp_all add: char_at_def)

lemma two_char_operators_cases:
  assumes "(a, b, k2, k1) \<in> set two_char_operators"
  shows "(a, b, k2, k1) = (CHR ''<'', CHR ''='', kTokenLE, kTokenLT) \<or>
     (a, b, k2, k1) = (CHR ''>'', CHR ''='', kTokenGE, kTokenGT) \<or>
     (a, b, k2, k1) = (CHR ''!'', CHR ''='', kTokenNE, kTokenBang) \<or>
     (a, b, k2, k1) = (CHR ''='', CHR ''='', kTokenEQ, kTokenAssign) \<or>
     (a, b, k2, k1) = (CHR ''>'', CHR ''>'', kTokenAppend, kTokenGT) \<or>
     (a, b, k2, k1) = (CHR ''+'', CHR ''='', kTokenAddAssign, kTokenPlus) \<or>
     (a, b, k2, k1) = (CHR ''-'', CHR ''='', kTokenSubAssign, kTokenMinus) \<or>
     (a, b, k2, k1) = (CHR ''+'', CHR ''-'', kTokenPlusMinus, kTokenPlus) \<or>
     (a, b, k2, k1) = (CHR ''.'', CHR ''.'', kTokenDots, kTokenDot) \<or>
     (a, b, k2, k1) = (CHR ''<'', CHR ''>'', kTokenNE, kTokenLT)"
  using assms by (simp add: two_char_operators_def)

lemma scan_token_two_chars:
  assumes "(a, b, k2, k1) \<in> set two_char_operators"
    and "char_at s i = a" and "char_at s (i + 1) = b"
  shows "scan_token g s i =
    (Inr (if a = CHR ''.'' \<and> char_at s (i + 2) = CHR ''.'' then i + 3 else i + 2), Some k2, None)"
  using two_char_operators_cases [OF assms(1)]
  by (elim disjE) (use assms(2,3) in \<open>simp_all add: scan_token_def Let_def isdigit_def\<close>)

lemma scan_token_one_char:
  assumes "(a, b, k2, k1) \<in> set two_char_operators"
    and "char_at s i = a" and "\<not> continues_token a (char_at s (i + 1))"
  shows "scan_token g s i = (Inr (i + 1), Some k1, None)"
  using two_char_operators_cases [OF assms(1)]
  by (elim disjE)
    (use assms(2,3) in \<open>simp_all add: scan_token_def Let_def continues_token_def
        two_char_operators_def\<close>)

lemma reads_eval:
  assumes "scan_while isspace (input lx) (cur lx) = start"
    and "scan_token g (input lx) start = (Inr (start + n), Some k, v)"
  shows "reads g lx start k n"
  using read_token_eval [OF assms]
  by (simp add: reads_def assigned_def Let_def split: option.split)

lemma operator_not_space:
  assumes "(a, b, k2, k1) \<in> set two_char_operators"
  shows "\<not> isspace a"
  using two_char_operators_cases [OF assms]
  by (elim disjE) (simp_all add: isspace_def)

lemma all_isspace: "\<forall>c \<in> set ws. isspace c \<Longrightarrow> \<forall>c \<in> set ws. c \<noteq> CHR 0x00 \<and> isspace c"
  by (auto dest: isspace_not_NUL)

text \<open>
  C5, amended: where, behind white space, one of the operators \<open><=\<close>, \<open>>=\<close>, \<open>!=\<close>, \<open>==\<close>,
  \<open>>>\<close>, \<open>+=\<close>, \<open>-=\<close>, \<open>+-\<close>, \<open>..\<close> or \<open><>\<close> stands, \<open>read_token\<close> reads one token of its
  kind, two characters long (three for \<open>...\<close>); \<open><>\<close> gives the kind of \<open>!=\<close>. Where the
  first character of the operator stands and the character behind it does not continue the
  token (it is not the second character of an operator with that first character nor, behind
  a dot, a digit), \<open>read_token\<close> reads the single-character token, one character long.
\<close>

theorem two_char_operator_tokens:
  assumes "(a, b, k2, k1) \<in> set two_char_operators"
    and "\<forall>c \<in> set ws. isspace c"
    and "cur lx = length pre"
  shows "(input lx = pre @ ws @ a # b # rest \<longrightarrow>
            reads g lx (length pre + length ws) k2
              (if a = CHR ''.'' \<and> char_at rest 0 = CHR ''.'' then 3 else 2))
       \<and> (input lx = pre @ ws @ a # rest \<and> \<not> continues_token a (char_at rest 0) \<longrightarrow>
            reads g lx (length pre + length ws) k1 1)"
proof (intro conjI impI)
  note nsp = operator_not_space [OF assms(1)]
  define start where "start = length pre + length ws"
  {
    assume inp: "input lx = pre @ ws @ a # b # rest"
    have w: "scan_while isspace (input lx) (cur lx) = start"
      unfolding assms(3) start_def
      by (rule scan_while_prefix [OF all_isspace [OF assms(2)] nsp inp])
    have c: "char_at (input lx) start = a" "char_at (input lx) (start + 1) = b"
      "char_at (input lx) (start + 2) = char_at rest 0"
      unfolding inp start_def
      using char_at_append2 [of pre ws "a # b # rest" 0]
        char_at_append2 [of pre ws "a # b # rest" 1]
        char_at_append2 [of pre ws "a # b # rest" 2]
      by (simp_all add: numeral_2_eq_2)
    have "scan_token g (input lx) start =
      (Inr (start + (if a = CHR ''.'' \<and> char_at rest 0 = CHR ''.'' then 3 else 2)), Some k2, None)"
      using scan_token_two_chars [OF assms(1) c(1,2), of g] c(3) by simp
    from reads_eval [OF w this]
    show "reads g lx (length pre + length ws) k2
              (if a = CHR ''.'' \<and> char_at rest 0 = CHR ''.'' then 3 else 2)"
      by (simp add: start_def)
  }
  {
    assume "input lx = pre @ ws @ a # rest \<and> \<not> continues_token a (char_at rest 0)"
    then have inp: "input lx = pre @ ws @ a # rest"
      and nc: "\<not> continues_token a (char_at rest 0)" by simp_all
    have w: "scan_while isspace (input lx) (cur lx) = start"
      unfolding assms(3) start_def
      by (rule scan_while_prefix [OF all_isspace [OF assms(2)] nsp inp])
    have c: "char_at (input lx) start = a" "char_at (input lx) (start + 1) = char_at rest 0"
      unfolding inp start_def
      using char_at_append2 [of pre ws "a # rest" 0] char_at_append2 [of pre ws "a # rest" 1]
      by simp_all
    have "scan_token g (input lx) start = (Inr (start + 1), Some k1, None)"
      using scan_token_one_char [OF assms(1) c(1), of g] nc c(2) by simp
    from reads_eval [OF w this]
    show "reads g lx (length pre + length ws) k1 1"
      by (simp add: start_def)
  }
qed

lemma reads_unique:
  "reads g lx start k n \<Longrightarrow> reads g lx start' k' n' \<Longrightarrow> k' = k \<and> n' = n"
  by (cases rule: read_token_cases [of g lx]) (simp_all add: reads_def)

text \<open>
  C5, as stated: taking the second character away from an input that begins with a
  two-character operator gives the single-character token. The input \<open>...\<close> begins with
  \<open>..\<close> and is read as one token of three characters; without its second character it
  is \<open>..\<close>, which is read as the two-character token again, not as a dot.
\<close>

theorem three_dots_counterexample:
  "reads False (new_Lexer ''...'') 0 kTokenDots 3 \<and>
   reads False (new_Lexer ''..'') 0 kTokenDots 2 \<and>
   \<not> reads False (new_Lexer ''..'') 0 kTokenDot 1"
proof -
  have w: "scan_while isspace ''...'' 0 = 0" "scan_while isspace ''..'' 0 = 0"
    by (simp_all add: scan_while_def isspace_def)
  have t: "scan_token False ''...'' 0 = (Inr (0 + 3), Some kTokenDots, None)"
    "scan_token False ''..'' 0 = (Inr (0 + 2), Some kTokenDots, None)"
    by (simp_all add: scan_eval)
  have a: "reads False (new_Lexer ''...'') 0 kTokenDots 3"
    by (rule reads_eval [of _ _ False]) (simp_all add: new_Lexer_def w t)
  have b: "reads False (new_Lexer ''..'') 0 kTokenDots 2"
    by (rule reads_eval [of _ _ False]) (simp_all add: new_Lexer_def w t)
  from reads_unique [OF b] have "\<not> reads False (new_Lexer ''..'') 0 kTokenDot 1" by auto
  with a b show ?thesis by simp
qed

theorem two_char_operator_tokens_witness:
  "reads False
     \<lparr>input = ''x <= 3'', cur = 1, peeked = False,
      tok = \<lparr>str = 0, type = kTokenLname, length_t = 1, value_t = Unset\<rparr>\<rparr> 2 kTokenLE 2
   \<and> reads False
     \<lparr>input = ''x < 3'', cur = 1, peeked = False,
      tok = \<lparr>str = 0, type = kTokenLname, length_t = 1, value_t = Unset\<rparr>\<rparr> 2 kTokenLT 1"
proof -
  have m: "(CHR ''<'', CHR ''='', kTokenLE, kTokenLT) \<in> set two_char_operators"
    by (simp add: two_char_operators_def)
  have sp: "\<forall>c \<in> set '' ''. isspace c" by (simp add: isspace_def)
  have nc: "\<not> continues_token (CHR ''<'') (char_at '' 3'' 0)"
    by (simp add: continues_token_def two_char_operators_def isdigit_def)
  show ?thesis
    using two_char_operator_tokens [OF m sp, of
        "\<lparr>input = ''x <= 3'', cur = 1, peeked = False,
          tok = \<lparr>str = 0, type = kTokenLname, length_t = 1, value_t = Unset\<rparr>\<rparr>"
        "''x''" "'' 3''" False]
      two_char_operator_tokens [OF m sp, of
        "\<lparr>input = ''x < 3'', cur = 1, peeked = False,
          tok = \<lparr>str = 0, type = kTokenLname, length_t = 1, value_t = Unset\<rparr>\<rparr>"
        "''x''" "'' 3''" False] nc
    by (simp add: numeral_2_eq_2)
qed

lemma scan_token_unfinished:
  assumes "char_at s i = CHR 0x27" and "strchr s (i + 1) (CHR 0x27) = None"
  shows "scan_token g s i = (Inl (SyntaxError ''unfinished string''), Some kTokenString, None)"
  using assms by (simp add: scan_token_def Let_def)

lemma scan_token_after_dollar:
  assumes "char_at s i = CHR ''$''"
    and "\<not> (isalpha (char_at s (i + 1)) \<or> char_at s (i + 1) = CHR ''_'' \<or>
            char_at s (i + 1) = CHR ''*'')"
  shows "scan_token g s i =
    (Inl (SyntaxError (''unexpected character after '' @ [CHR 0x27, CHR ''$'', CHR 0x27])),
     None, None)"
  using assms by (simp add: scan_token_def Let_def)

lemma strchr_absent:
  assumes "s = pre @ rest" and "c \<notin> set rest" and "c \<noteq> CHR 0x00"
  shows "strchr s (length pre) c = None"
  using assms by (auto simp: strchr_def Let_def dest: set_takeWhileD)

text \<open>
  C6, amended: reading a token where, behind white space, a quote stands that no later quote
  closes throws the lexical error \<open>unfinished string\<close>; reading where a dollar sign stands
  that is followed by neither a letter, an underscore nor a star throws a lexical error with
  the fixed message \<open>unexpected character after '$'\<close>, which does not show the offending
  character.
\<close>

theorem lexical_errors:
  assumes "\<forall>c \<in> set ws. isspace c" and "cur lx = length pre"
  shows "(input lx = pre @ ws @ CHR 0x27 # rest \<and> CHR 0x27 \<notin> set rest \<longrightarrow>
            fst (read_token g lx) = Inl (SyntaxError ''unfinished string''))
       \<and> (input lx = pre @ ws @ CHR ''$'' # rest \<and>
            \<not> (isalpha (char_at rest 0) \<or> char_at rest 0 = CHR ''_'' \<or>
               char_at rest 0 = CHR ''*'') \<longrightarrow>
            fst (read_token g lx) =
              Inl (SyntaxError (''unexpected character after '' @ [CHR 0x27, CHR ''$'', CHR 0x27])))"
proof (intro conjI impI)
  define start where "start = length pre + length ws"
  {
    assume "input lx = pre @ ws @ CHR 0x27 # rest \<and> CHR 0x27 \<notin> set rest"
    then have inp: "input lx = pre @ ws @ CHR 0x27 # rest" and no: "CHR 0x27 \<notin> set rest"
      by simp_all
    have w: "scan_while isspace (input lx) (cur lx) = start"
      unfolding assms(2) start_def
      by (rule scan_while_prefix [OF all_isspace [OF assms(1)] _ inp]) (simp add: isspace_def)
    have c: "char_at (input lx) start = CHR 0x27"
      unfolding inp start_def using char_at_append2 [of pre ws "CHR 0x27 # rest" 0] by simp
    have "input lx = (pre @ ws @ [CHR 0x27]) @ rest" by (simp add: inp)
    from strchr_absent [OF this no]
    have "strchr (input lx) (start + 1) (CHR 0x27) = None" by (simp add: start_def)
    from read_token_eval_throw [OF w scan_token_unfinished [OF c this]]
    show "fst (read_token g lx) = Inl (SyntaxError ''unfinished string'')" by simp
  }
  {
    assume "input lx = pre @ ws @ CHR ''$'' # rest \<and>
            \<not> (isalpha (char_at rest 0) \<or> char_at rest 0 = CHR ''_'' \<or>
               char_at rest 0 = CHR ''*'')"
    then have inp: "input lx = pre @ ws @ CHR ''$'' # rest"
      and bad: "\<not> (isalpha (char_at rest 0) \<or> char_at rest 0 = CHR ''_'' \<or>
               char_at rest 0 = CHR ''*'')"
      by simp_all
    have w: "scan_while isspace (input lx) (cur lx) = start"
      unfolding assms(2) start_def
      by (rule scan_while_prefix [OF all_isspace [OF assms(1)] _ inp]) (simp add: isspace_def)
    have c: "char_at (input lx) start = CHR ''$''"
      "char_at (input lx) (start + 1) = char_at rest 0"
      unfolding inp start_def
      using char_at_append2 [of pre ws "CHR ''$'' # rest" 0]
        char_at_append2 [of pre ws "CHR ''$'' # rest" 1] by simp_all
    from bad c(2) have bad': "\<not> (isalpha (char_at (input lx) (start + 1)) \<or>
        char_at (input lx) (start + 1) = CHR ''_'' \<or> char_at (input lx) (start + 1) = CHR ''*'')"
      by simp
    from read_token_eval_throw [OF w scan_token_after_dollar [OF c(1) bad']]
    show "fst (read_token g lx) =
        Inl (SyntaxError (''unexpected character after '' @ [CHR 0x27, CHR ''$'', CHR 0x27]))"
      by simp
  }
qed

text \<open>
  C6, as stated: the message for a bad character behind the dollar sign names that
  character. On the input \<open>$1\<close> the message is the fixed text, in which \<open>1\<close> does not
  occur.
\<close>

theorem dollar_message_counterexample:
  "fst (read_token False (new_Lexer ''$1'')) =
     Inl (SyntaxError (''unexpected character after '' @ [CHR 0x27, CHR ''$'', CHR 0x27])) \<and>
   CHR ''1'' \<notin> set (''unexpected character after '' @ [CHR 0x27, CHR ''$'', CHR 0x27])"
proof -
  have w: "scan_while isspace (input (new_Lexer ''$1'')) (cur (new_Lexer ''$1'')) = 0"
    by (simp add: scan_while_def isspace_def new_Lexer_def)
  have t: "scan_token False (input (new_Lexer ''$1'')) 0 =
    (Inl (SyntaxError (''unexpected character after '' @ [CHR 0x27, CHR ''$'', CHR 0x27])),
     None, None)"
    by (simp add: scan_eval new_Lexer_def)
  show ?thesis
    using read_token_eval_throw [OF w t] by simp
qed

theorem lexical_errors_witness:
  "fst (read_token False (new_Lexer (CHR 0x27 # ''abc''))) = Inl (SyntaxError ''unfinished string'')
   \<and> fst (read_token False (new_Lexer ''$ '')) =
       Inl (SyntaxError (''unexpected character after '' @ [CHR 0x27, CHR ''$'', CHR 0x27]))"
proof -
  have sp: "\<forall>c \<in> set []. isspace c" by simp
  have c: "cur (new_Lexer (CHR 0x27 # ''abc'')) = length ([] :: string)"
    "cur (new_Lexer ''$ '') = length ([] :: string)"
    by (simp_all add: new_Lexer_def)
  have bad: "\<not> (isalpha (char_at '' '' 0) \<or> char_at '' '' 0 = CHR ''_'' \<or>
               char_at '' '' 0 = CHR ''*'')"
    by (simp add: isalpha_def isupper_def islower_def)
  show ?thesis
    using lexical_errors [OF sp c(1), of "''abc''" False]
      lexical_errors [OF sp c(2), of "'' ''" False] bad
    by (simp add: new_Lexer_def)
qed

subsection \<open>The text of a token\<close>






lemma single_char_token_kinds [simp]:
  "single_char_token c \<noteq> Some kTokenString"
  "single_char_token c \<noteq> Some kTokenVarname"
  "single_char_token c \<noteq> Some kTokenFuncname"
  by (simp_all add: single_char_token_def)













end
